theory Spec2Isabelle
  imports Complex_Main "HOL-Library.Log_Nat"
begin

section \<open>The float64 coordinates of the geometry types\<close>

text \<open>
  The coordinates of \<^verbatim>\<open>sql.Point\<close> are Go \<^verbatim>\<open>float64\<close> values. A value is
  a finite number, one of the two infinities, or NaN. The finite values are carried
  by their exact rational value; the two zeros are one value here (no operation of
  the sources tells them apart: they subtract, multiply, compare and take minima and
  maxima), and so are all NaN payloads. Arithmetic computes the exact rational
  result and rounds it to the nearest binary64 value, ties to even, one operation
  at a time: the evaluation without fused multiply-add, as on amd64.
\<close>

datatype float64 = Fin rat | PInf | NInf | NaN

definition ilog2 :: "rat \<Rightarrow> int" where
  \<comment> \<open>the binary exponent of a positive rational: \<open>2 powi k \<le> q < 2 powi (k + 1)\<close>\<close>
  "ilog2 q = (case quotient_of q of (a, b) \<Rightarrow>
     (let k = bitlen a - bitlen b
      in if 2 powi k \<le> q then k else k - 1))"

definition round_half_even :: "rat \<Rightarrow> int" where
  "round_half_even q = (let f = \<lfloor>q\<rfloor>; d = q - of_int f
     in if d < 1 / 2 then f else if 1 / 2 < d then f + 1
        else if even f then f else f + 1)"

definition round_pos :: "rat \<Rightarrow> float64" where
  \<comment> \<open>binary64 has 53 significant bits, least exponent \<open>-1074\<close> (subnormals) and
      overflows to infinity from \<open>2 ^ 1024\<close> on\<close>
  "round_pos a =
     (let e = max (ilog2 a - 52) (- 1074);
          m = round_half_even (a / 2 powi e)
      in if 971 < e \<or> (e = 971 \<and> m = 2 ^ 53) then PInf
         else Fin (of_int m * 2 powi e))"

fun fneg :: "float64 \<Rightarrow> float64" where
  "fneg (Fin a) = Fin (- a)"
| "fneg PInf = NInf"
| "fneg NInf = PInf"
| "fneg NaN = NaN"

definition round64 :: "rat \<Rightarrow> float64" where
  "round64 q = (if q = 0 then Fin 0
     else if 0 < q then round_pos q
     else fneg (round_pos (- q)))"

fun fsub :: "float64 \<Rightarrow> float64 \<Rightarrow> float64" where
  "fsub NaN y = NaN"
| "fsub x NaN = NaN"
| "fsub (Fin a) (Fin b) = round64 (a - b)"
| "fsub (Fin a) PInf = NInf"
| "fsub (Fin a) NInf = PInf"
| "fsub PInf PInf = NaN"
| "fsub NInf NInf = NaN"
| "fsub PInf y = PInf"
| "fsub NInf y = NInf"

fun fmul :: "float64 \<Rightarrow> float64 \<Rightarrow> float64" where
  "fmul NaN y = NaN"
| "fmul x NaN = NaN"
| "fmul (Fin a) (Fin b) = round64 (a * b)"
| "fmul (Fin a) y = (if a = 0 then NaN else if (0 < a) = (y = PInf) then PInf else NInf)"
| "fmul x (Fin b) = (if b = 0 then NaN else if (0 < b) = (x = PInf) then PInf else NInf)"
| "fmul x y = (if x = y then PInf else NInf)"

fun flt :: "float64 \<Rightarrow> float64 \<Rightarrow> bool" where
  "flt NaN y = False"
| "flt x NaN = False"
| "flt (Fin a) (Fin b) = (a < b)"
| "flt x NInf = False"
| "flt NInf y = True"
| "flt PInf y = False"
| "flt x PInf = True"

definition fgt :: "float64 \<Rightarrow> float64 \<Rightarrow> bool" where
  "fgt x y = flt y x"

definition feq :: "float64 \<Rightarrow> float64 \<Rightarrow> bool" where
  \<comment> \<open>Go's \<^verbatim>\<open>==\<close>: NaN equals nothing, itself included\<close>
  "feq x y = (x \<noteq> NaN \<and> y \<noteq> NaN \<and> x = y)"

definition fmin :: "float64 \<Rightarrow> float64 \<Rightarrow> float64" where
  \<comment> \<open>\<^verbatim>\<open>math.Min\<close>: minus infinity wins over NaN, then NaN, then the smaller\<close>
  "fmin x y = (if x = NInf \<or> y = NInf then NInf
     else if x = NaN \<or> y = NaN then NaN
     else if flt x y then x else y)"

definition fmax :: "float64 \<Rightarrow> float64 \<Rightarrow> float64" where
  \<comment> \<open>\<^verbatim>\<open>math.Max\<close>: plus infinity wins over NaN, then NaN, then the greater\<close>
  "fmax x y = (if x = PInf \<or> y = PInf then PInf
     else if x = NaN \<or> y = NaN then NaN
     else if fgt x y then x else y)"

section \<open>Values, errors and outcomes\<close>

record Point =
  X :: float64
  Y :: float64

text \<open>
  Modelled from the spec: the declarations of \<^verbatim>\<open>sql.Linestring\<close>, \<^verbatim>\<open>sql.Polygon\<close>,
  \<^verbatim>\<open>sql.Row\<close>, \<^verbatim>\<open>sql.Expression\<close> and \<^verbatim>\<open>sql.ErrInvalidArgumentNumber\<close> are not
  among the sources. A Linestring is an ordered sequence of Points (the source
  reads its field \<^verbatim>\<open>Points\<close>), a Polygon an ordered sequence of Linestrings (the
  source fills its field \<^verbatim>\<open>Lines\<close>), a row a sequence of values, and the error
  kind carries the three arguments the source gives it.
\<close>

record Linestring =
  Points :: "Point list"

record Polygon_value =
  Lines :: "Linestring list"

text \<open>
  The dynamically typed values (\<^verbatim>\<open>interface{}\<close>) that rows hold and expressions
  return. \<open>Nil\<close> is the untyped \<^verbatim>\<open>nil\<close>, SQL NULL.
\<close>

datatype Value =
    Nil
  | PointV Point
  | LinestringV Linestring
  | PolygonV Polygon_value
  | StringV string
  | Int64V int
  | Float64V float64
  | BoolV bool

datatype error =
    ErrorNew string
  | ErrInvalidArgumentNumber string string int

datatype panic =
    IndexOutOfRange int int
  | InterfaceConversion

datatype 'a outcome = Panics panic | Returns 'a

type_synonym Row = "Value list"

definition index :: "'a list \<Rightarrow> int \<Rightarrow> 'a outcome" where
  \<comment> \<open>a Go slice read \<^verbatim>\<open>xs[i]\<close>: out of range it panics\<close>
  "index xs i = (if 0 \<le> i \<and> i < int (length xs) then Returns (xs ! nat i)
     else Panics (IndexOutOfRange i (int (length xs))))"

definition point_eq :: "Point \<Rightarrow> Point \<Rightarrow> bool" where
  \<comment> \<open>Go's \<^verbatim>\<open>==\<close> on the struct: field by field\<close>
  "point_eq p q = (feq (X p) (X q) \<and> feq (Y p) (Y q))"

section \<open>Geometric algorithms (sql/expression/function/polygon.go)\<close>

definition pointOrientation :: "Point \<Rightarrow> Point \<Rightarrow> Point \<Rightarrow> int" where
  "pointOrientation p1 p2 p3 =
     (let val = fsub (fmul (fsub (Y p2) (Y p1)) (fsub (X p3) (X p2)))
                     (fmul (fsub (Y p3) (Y p2)) (fsub (X p2) (X p1)))
      in if feq val (Fin 0) then 0
         else if fgt val (Fin 0) then 1
         else 2)"

definition onSegment :: "Point \<Rightarrow> Point \<Rightarrow> Point \<Rightarrow> bool" where
  "onSegment a b c =
     (fgt (X c) (fmin (X a) (X b)) \<and> flt (X c) (fmax (X a) (X b)) \<and>
      fgt (Y c) (fmin (Y a) (Y b)) \<and> flt (Y c) (fmax (Y a) (Y b)))"

definition lineSegmentsIntersect :: "Point \<Rightarrow> Point \<Rightarrow> Point \<Rightarrow> Point \<Rightarrow> bool" where
  "lineSegmentsIntersect a b c d =
     (let abc = pointOrientation a b c;
          abd = pointOrientation a b d;
          cda = pointOrientation c d a;
          cdb = pointOrientation c d b
      in if abc \<noteq> abd \<and> cda \<noteq> cdb then True
         else if abc = 0 \<and> onSegment a b c then True
         else if abd = 0 \<and> onSegment a b d then True
         else if cda = 0 \<and> onSegment c d a then True
         else if cdb = 0 \<and> onSegment c d b then True
         else False)"

definition isLinearRing :: "Linestring \<Rightarrow> bool outcome" where
  \<comment> \<open>the loop after the unconditional \<^verbatim>\<open>return true\<close> is unreachable and has no
      part in the function\<close>
  "isLinearRing line =
     (let numPoints = int (length (Points line))
      in if numPoints \<noteq> 0 \<and> numPoints < 4 then Returns False
         else case index (Points line) 0 of
           Panics e \<Rightarrow> Panics e
         | Returns first \<Rightarrow>
             (case index (Points line) (numPoints - 1) of
                Panics e \<Rightarrow> Panics e
              | Returns final \<Rightarrow>
                  if \<not> point_eq first final then Returns False
                  else Returns True))"

section \<open>The Polygon constructor expression\<close>

text \<open>
  A child is any \<^verbatim>\<open>sql.Expression\<close>; the constructor uses its \<^verbatim>\<open>Eval\<close>,
  \<^verbatim>\<open>Resolved\<close>, \<^verbatim>\<open>IsNullable\<close> and \<^verbatim>\<open>String\<close> methods only. \<^verbatim>\<open>Eval\<close> returns
  Go's pair of a value and an error (\<open>None\<close> is the \<^verbatim>\<open>nil\<close> error); the context
  argument carries nothing the constructor reads and is left out.
\<close>

record Expression =
  eval :: "Row \<Rightarrow> Value \<times> error option"
  resolved :: bool
  isNullable :: bool
  string_of :: string

record Polygon =
  args :: "Expression list"

text \<open>
  \<^verbatim>\<open>NewPolygon\<close> returns a pointer to a fresh \<^verbatim>\<open>Polygon\<close> struct. The store holds
  the structs allocated so far; a pointer is the position of its struct.
\<close>

type_synonym store = "Polygon list"

definition NewPolygon :: "store \<Rightarrow> Expression list \<Rightarrow> store \<times> nat option \<times> error option" where
  "NewPolygon s as =
     (if int (length as) < 1
      then (s, None, Some (ErrInvalidArgumentNumber ''Polygon'' ''1 or more'' (int (length as))))
      else (s @ [\<lparr>args = as\<rparr>], Some (length s), None))"

definition Children :: "Polygon \<Rightarrow> Expression list" where
  "Children l = args l"

fun Resolved_loop :: "Expression list \<Rightarrow> bool" where
  "Resolved_loop [] = True"
| "Resolved_loop (arg # rest) = (if \<not> resolved arg then False else Resolved_loop rest)"

definition Resolved :: "Polygon \<Rightarrow> bool" where
  "Resolved l = Resolved_loop (args l)"

fun IsNullable_loop :: "Expression list \<Rightarrow> bool" where
  "IsNullable_loop [] = False"
| "IsNullable_loop (arg # rest) = (if isNullable arg then True else IsNullable_loop rest)"

definition IsNullable :: "Polygon \<Rightarrow> bool" where
  "IsNullable l = IsNullable_loop (args l)"

definition WithChildren :: "store \<Rightarrow> nat \<Rightarrow> Expression list \<Rightarrow> store \<times> nat option \<times> error option" where
  \<comment> \<open>the receiver \<open>l\<close> is not read\<close>
  "WithChildren s l children = NewPolygon s children"

text \<open>
  \<^verbatim>\<open>Eval\<close> allocates one zero \<^verbatim>\<open>Linestring\<close> per argument and fills position \<open>i\<close>
  when argument \<open>i\<close> has passed; \<open>i\<close> stays below the length of the slice, so the
  write never goes out of range.
\<close>

fun Eval_loop :: "Expression list \<Rightarrow> Row \<Rightarrow> nat \<Rightarrow> Linestring list \<Rightarrow> (Value \<times> error option) outcome" where
  "Eval_loop [] row i lines = Returns (PolygonV \<lparr>Lines = lines\<rparr>, None)"
| "Eval_loop (arg # rest) row i lines =
     (case eval arg row of
        (val, Some err) \<Rightarrow> Returns (Nil, Some err)
      | (val, None) \<Rightarrow>
          (case val of
             LinestringV v \<Rightarrow>
               (case isLinearRing v of
                  Panics e \<Rightarrow> Panics e
                | Returns ok \<Rightarrow>
                    if ok then Eval_loop rest row (Suc i) (lines[i := v])
                    else Returns (Nil, Some (ErrorNew ''polygon constructor encountered a non-linearring'')))
           | _ \<Rightarrow> Returns (Nil, Some (ErrorNew ''polygon constructor encountered a non-linestring''))))"

definition Eval :: "Polygon \<Rightarrow> Row \<Rightarrow> (Value \<times> error option) outcome" where
  "Eval l row = Eval_loop (args l) row 0 (replicate (length (args l)) \<lparr>Points = []\<rparr>)"

section \<open>The Point type descriptor (sql/point.go)\<close>

text \<open>
  Modelled from the spec: \<^verbatim>\<open>compareNulls\<close> is called by \<^verbatim>\<open>Compare\<close> and is not
  among the sources. The specification says that one or both operands may be the
  null marker and that a shared convention then orders them. It reports nulls when
  either operand is \<open>Nil\<close>; the order it gives is the parameter \<open>nullOrder\<close>.
\<close>

definition compareNulls :: "(Value \<Rightarrow> Value \<Rightarrow> int) \<Rightarrow> Value \<Rightarrow> Value \<Rightarrow> bool \<times> int" where
  "compareNulls nullOrder a b =
     (if a = Nil \<or> b = Nil then (True, nullOrder a b) else (False, 0))"

definition Compare :: "(Value \<Rightarrow> Value \<Rightarrow> int) \<Rightarrow> Value \<Rightarrow> Value \<Rightarrow> int \<times> error option" where
  "Compare nullOrder a b =
     (case compareNulls nullOrder a b of
        (True, res) \<Rightarrow> (res, None)
      | (False, res) \<Rightarrow>
          (case a of
             PointV pa \<Rightarrow>
               (case b of
                  PointV pb \<Rightarrow>
                    if fgt (X pa) (X pb) then (1, None)
                    else if flt (X pa) (X pb) then (- 1, None)
                    else if fgt (Y pa) (Y pb) then (1, None)
                    else if flt (Y pa) (Y pb) then (- 1, None)
                    else (0, None)
                | _ \<Rightarrow> (0, Some (ErrorNew ''received a non-Point type'')))
           | _ \<Rightarrow> (0, Some (ErrorNew ''received a non-Point type''))))"

definition Convert :: "Value \<Rightarrow> Value \<times> error option" where
  "Convert v = (case v of
       PointV p \<Rightarrow> (PointV p, None)
     | _ \<Rightarrow> (Nil, Some (ErrorNew (''can'' @ [CHR 0x27] @ ''t convert to Point''))))"

text \<open>
  The wire values of the vitess library: a type tag and a byte payload. Its
  \<^verbatim>\<open>NULL\<close> is the zero \<^verbatim>\<open>Value{}\<close>, and \<^verbatim>\<open>MakeTrusted\<close> builds a value of the given
  type from the bytes (\<^verbatim>\<open>NULL\<close> for the null type).
\<close>

datatype query_Type = Null_type | Geometry

record sqltypes_Value =
  value_typ :: query_Type
  value_val :: string

definition sqltypes_Value_zero :: sqltypes_Value where
  "sqltypes_Value_zero = \<lparr>value_typ = Null_type, value_val = []\<rparr>"

definition sqltypes_NULL :: sqltypes_Value where
  "sqltypes_NULL = sqltypes_Value_zero"

definition MakeTrusted :: "query_Type \<Rightarrow> string \<Rightarrow> sqltypes_Value" where
  "MakeTrusted t bs = (if t = Null_type then sqltypes_NULL else \<lparr>value_typ = t, value_val = bs\<rparr>)"

definition SQL :: "Value \<Rightarrow> (sqltypes_Value \<times> error option) outcome" where
  \<comment> \<open>\<^verbatim>\<open>pv.(string)\<close> is a type assertion with one result: it panics unless \<open>pv\<close>
      holds a string\<close>
  "SQL v =
     (if v = Nil then Returns (sqltypes_NULL, None)
      else case Convert v of
        (pv, Some err) \<Rightarrow> Returns (sqltypes_Value_zero, None)
      | (pv, None) \<Rightarrow>
          (case pv of
             StringV s \<Rightarrow> Returns (MakeTrusted Geometry s, None)
           | _ \<Rightarrow> Panics InterfaceConversion))"

definition Zero :: Value where
  "Zero = Nil"

section \<open>Notions of the specification\<close>

definition pt :: "rat \<Rightarrow> rat \<Rightarrow> Point" where
  "pt x y = \<lparr>X = Fin x, Y = Fin y\<rparr>"

fun is_finite :: "float64 \<Rightarrow> bool" where
  "is_finite (Fin a) = True"
| "is_finite x = False"

definition finite_point :: "Point \<Rightarrow> bool" where
  "finite_point p = (is_finite (X p) \<and> is_finite (Y p))"

fun value_of :: "float64 \<Rightarrow> rat" where
  "value_of (Fin a) = a"
| "value_of x = 0"

text \<open>
  The lexicographic order of the specification on points with finite coordinates:
  by \<open>X\<close>, then by \<open>Y\<close>, as a sign.
\<close>

definition lex_sign :: "Point \<Rightarrow> Point \<Rightarrow> int" where
  "lex_sign p q =
     (let xp = value_of (X p); yp = value_of (Y p);
          xq = value_of (X q); yq = value_of (Y q)
      in if xp < xq \<or> (xp = xq \<and> yp < yq) then - 1
         else if xp = xq \<and> yp = yq then 0
         else 1)"

text \<open>
  The orientation of the specification: the vectors between the points, their
  cross product, and the classification of its sign with the names the source's
  comments give the three results. All in float64 arithmetic.
\<close>

definition Collinear :: int where
  "Collinear = 0"

definition Clockwise :: int where
  "Clockwise = 1"

definition CounterClockwise :: int where
  "CounterClockwise = 2"

definition vec :: "Point \<Rightarrow> Point \<Rightarrow> Point" where
  \<comment> \<open>\<open>vec p q\<close> is the vector \<open>q - p\<close>\<close>
  "vec p q = \<lparr>X = fsub (X q) (X p), Y = fsub (Y q) (Y p)\<rparr>"

definition cross :: "Point \<Rightarrow> Point \<Rightarrow> float64" where
  "cross u v = fsub (fmul (X u) (Y v)) (fmul (Y u) (X v))"

definition sign_class :: "float64 \<Rightarrow> int" where
  "sign_class c = (if feq c (Fin 0) then Collinear
     else if fgt c (Fin 0) then Clockwise
     else CounterClockwise)"

text \<open>
  What the constructor asks of a child on a row: it evaluates without error to a
  Linestring that \<open>isLinearRing\<close> accepts. \<open>ring_of\<close> is the Linestring a child
  evaluates to.
\<close>

definition yields_ring :: "Row \<Rightarrow> Expression \<Rightarrow> bool" where
  "yields_ring row arg = (case eval arg row of
       (LinestringV v, None) \<Rightarrow> isLinearRing v = Returns True
     | _ \<Rightarrow> False)"

definition ring_of :: "Row \<Rightarrow> Expression \<Rightarrow> Linestring" where
  "ring_of row arg = (case eval arg row of
       (LinestringV v, e) \<Rightarrow> v
     | _ \<Rightarrow> \<lparr>Points = []\<rparr>)"

fun is_Linestring :: "Value \<Rightarrow> bool" where
  "is_Linestring (LinestringV v) = True"
| "is_Linestring v = False"

definition const_expr :: "Value \<Rightarrow> bool \<Rightarrow> Expression" where
  \<comment> \<open>a child that evaluates to the same value on every row\<close>
  "const_expr v n = \<lparr>eval = (\<lambda>row. (v, None)), resolved = True, isNullable = n, string_of = ''const''\<rparr>"

definition failing_expr :: "error \<Rightarrow> Expression" where
  \<comment> \<open>a child whose evaluation fails on every row\<close>
  "failing_expr e = \<lparr>eval = (\<lambda>row. (Nil, Some e)), resolved = True, isNullable = False, string_of = ''failing''\<rparr>"

text \<open>
  Exact geometry on points with integer coordinates, for the statements about
  \<open>lineSegmentsIntersect\<close>. \<open>turn p q r\<close> is the exact value of the expression
  whose sign \<open>pointOrientation\<close> classifies; \<open>small\<close> bounds the coordinates so that
  the float64 computation of it is exact.
\<close>

type_synonym ipoint = "int \<times> int"

definition ipt :: "ipoint \<Rightarrow> Point" where
  "ipt p = pt (of_int (fst p)) (of_int (snd p))"

definition small :: "ipoint \<Rightarrow> bool" where
  "small p = (\<bar>fst p\<bar> \<le> 2 ^ 25 \<and> \<bar>snd p\<bar> \<le> 2 ^ 25)"

definition turn :: "ipoint \<Rightarrow> ipoint \<Rightarrow> ipoint \<Rightarrow> int" where
  "turn p q r = (snd q - snd p) * (fst r - fst q) - (snd r - snd q) * (fst q - fst p)"

definition ivec :: "ipoint \<Rightarrow> ipoint \<Rightarrow> ipoint" where
  \<comment> \<open>\<open>ivec p q\<close> is the vector \<open>q - p\<close>\<close>
  "ivec p q = (fst q - fst p, snd q - snd p)"

definition icross :: "ipoint \<Rightarrow> ipoint \<Rightarrow> int" where
  "icross u v = fst u * snd v - snd u * fst v"

definition sign3 :: "int \<Rightarrow> int" where
  "sign3 v = (if v = 0 then 0 else if 0 < v then 1 else 2)"

definition strictly_between :: "ipoint \<Rightarrow> ipoint \<Rightarrow> ipoint \<Rightarrow> bool" where
  \<comment> \<open>\<open>c\<close> is strictly between \<open>a\<close> and \<open>b\<close> on both axes\<close>
  "strictly_between a b c =
     (min (fst a) (fst b) < fst c \<and> fst c < max (fst a) (fst b) \<and>
      min (snd a) (snd b) < snd c \<and> snd c < max (snd a) (snd b))"

definition boxes_apart :: "ipoint \<Rightarrow> ipoint \<Rightarrow> ipoint \<Rightarrow> ipoint \<Rightarrow> bool" where
  \<comment> \<open>the bounding boxes of the segments \<open>ab\<close> and \<open>cd\<close> have no point in common\<close>
  "boxes_apart a b c d =
     (max (fst a) (fst b) < min (fst c) (fst d) \<or> max (fst c) (fst d) < min (fst a) (fst b) \<or>
      max (snd a) (snd b) < min (snd c) (snd d) \<or> max (snd c) (snd d) < min (snd a) (snd b))"

definition collinear4 :: "ipoint \<Rightarrow> ipoint \<Rightarrow> ipoint \<Rightarrow> ipoint \<Rightarrow> bool" where
  \<comment> \<open>the four ends lie on one line\<close>
  "collinear4 a b c d = (turn a b c = 0 \<and> turn a b d = 0 \<and> turn c d a = 0 \<and> turn c d b = 0)"

definition slanted :: "ipoint \<Rightarrow> ipoint \<Rightarrow> bool" where
  \<comment> \<open>the segment is neither horizontal nor vertical (nor a single point)\<close>
  "slanted a b = (fst a \<noteq> fst b \<and> snd a \<noteq> snd b)"

definition overlap :: "ipoint \<Rightarrow> ipoint \<Rightarrow> ipoint \<Rightarrow> ipoint \<Rightarrow> bool" where
  \<comment> \<open>for collinear segments: they share more than one point, which shows in the
      projection to one of the axes\<close>
  "overlap a b c d =
     (max (min (fst a) (fst b)) (min (fst c) (fst d)) < min (max (fst a) (fst b)) (max (fst c) (fst d)) \<or>
      max (min (snd a) (snd b)) (min (snd c) (snd d)) < min (max (snd a) (snd b)) (max (snd c) (snd d)))"

definition same_segment :: "ipoint \<Rightarrow> ipoint \<Rightarrow> ipoint \<Rightarrow> ipoint \<Rightarrow> bool" where
  "same_segment a b c d = ((a = c \<and> b = d) \<or> (a = d \<and> b = c))"

text \<open>Linestrings used as examples: a closed ring, an open path, and a closed ring
  whose first and third segments cross.\<close>

definition closed_ring :: Linestring where
  "closed_ring = \<lparr>Points = [pt 0 0, pt 0 1, pt 1 1, pt 0 0]\<rparr>"

definition open_path :: Linestring where
  "open_path = \<lparr>Points = [pt 0 0, pt 0 1, pt 1 1, pt 1 0]\<rparr>"

definition bowtie :: Linestring where
  "bowtie = \<lparr>Points = [pt 0 0, pt 2 2, pt 2 0, pt 0 2, pt 0 0]\<rparr>"

definition NaN_point :: Point where
  "NaN_point = \<lparr>X = NaN, Y = NaN\<rparr>"

section \<open>Facts about the float64 arithmetic\<close>

text \<open>\<open>ilog2\<close> is the binary exponent of a positive rational.\<close>

lemma bitlen_powi_bounds:
  assumes "0 < n"
  shows "(2::rat) powi (bitlen n - 1) \<le> of_int n" and "(of_int n :: rat) < 2 powi bitlen n"
proof -
  have nn: "0 \<le> bitlen n - 1"
    using assms bitlen_bounds [of n] by (simp add: bitlen_alt_def)
  have "(2::int) ^ nat (bitlen n - 1) \<le> n" and "n < 2 ^ nat (bitlen n)"
    using bitlen_bounds [OF assms] by simp_all
  then have "(of_int ((2::int) ^ nat (bitlen n - 1)) :: rat) \<le> of_int n"
    and "(of_int n :: rat) < of_int ((2::int) ^ nat (bitlen n))"
    by (simp_all only: of_int_le_iff of_int_less_iff)
  then show "(2::rat) powi (bitlen n - 1) \<le> of_int n" and "(of_int n :: rat) < 2 powi bitlen n"
    using nn by (simp_all add: power_int_def)
qed

lemma ilog2_bounds:
  assumes "0 < q"
  shows "2 powi ilog2 q \<le> q" and "q < 2 powi (ilog2 q + 1)"
proof -
  obtain a b where ab: "quotient_of q = (a, b)"
    by (cases "quotient_of q")
  then have b: "0 < b" and q: "q = of_int a / of_int b"
    by (simp_all add: quotient_of_denom_pos quotient_of_div)
  from assms b q have a: "0 < a"
    by (simp add: zero_less_divide_iff)
  define k where "k = bitlen a - bitlen b"
  have B: "(0::rat) < of_int b"
    using b by simp
  have up: "q < 2 powi (k + 1)"
  proof -
    have "of_int a < (2::rat) powi bitlen a"
      by (rule bitlen_powi_bounds [OF a])
    also have "\<dots> = 2 powi (k + 1) * 2 powi (bitlen b - 1)"
      by (simp add: k_def flip: power_int_add)
    also have "\<dots> \<le> 2 powi (k + 1) * of_int b"
      by (intro mult_left_mono bitlen_powi_bounds [OF b]) simp
    finally show ?thesis
      using B by (simp add: q pos_divide_less_eq)
  qed
  have low: "2 powi (k - 1) \<le> q"
  proof -
    have "(2::rat) powi (k - 1) * of_int b \<le> 2 powi (k - 1) * 2 powi bitlen b"
      by (intro mult_left_mono less_imp_le bitlen_powi_bounds [OF b]) simp
    also have "\<dots> = 2 powi (bitlen a - 1)"
      by (simp add: k_def flip: power_int_add)
    also have "\<dots> \<le> of_int a"
      by (rule bitlen_powi_bounds [OF a])
    finally show ?thesis
      using B by (simp add: q pos_le_divide_eq)
  qed
  have il: "ilog2 q = (if 2 powi k \<le> q then k else k - 1)"
    by (simp add: ilog2_def ab k_def Let_def)
  show "2 powi ilog2 q \<le> q"
    using low by (simp add: il)
  show "q < 2 powi (ilog2 q + 1)"
    using up by (simp add: il not_le)
qed

lemma ilog2_of_int:
  assumes "0 < n"
  shows "ilog2 (of_int n) = bitlen n - 1"
proof -
  have q: "quotient_of (of_int n) = (n, 1)"
    by (metis Rat.of_int_def quotient_of_int)
  have b1: "bitlen 1 = 1"
    by (simp add: compute_bitlen)
  have nn: "0 \<le> bitlen n - 1"
    using assms bitlen_bounds [of n] by (simp add: bitlen_alt_def)
  have "(2::int) ^ nat (bitlen n - 1) \<le> n"
    using bitlen_bounds [OF assms] by simp
  then have "(of_int ((2::int) ^ nat (bitlen n - 1)) :: rat) \<le> of_int n"
    by (simp only: of_int_le_iff)
  then have "(2::rat) powi (bitlen n - 1) \<le> of_int n"
    using nn by (simp add: power_int_def)
  then show ?thesis
    by (simp add: ilog2_def q b1 Let_def)
qed

lemma round_half_even_of_int: "round_half_even (of_int m) = m"
  by (simp add: round_half_even_def)

lemma round64_pos_finite:
  assumes "0 < q" and "ilog2 q = k" and "- 1022 \<le> k" and "k < 1023"
    and "round_half_even (q / 2 powi (k - 52)) = m"
  shows "round64 q = Fin (of_int m * 2 powi (k - 52))"
proof -
  have e: "max (ilog2 q - 52) (- 1074) = k - 52"
    using assms(2,3) by simp
  show ?thesis
    unfolding round64_def round_pos_def Let_def e using assms(1,4,5) by simp
qed

text \<open>Integers up to \<open>2 ^ 53\<close> in magnitude are binary64 values: rounding keeps them.\<close>

lemma round64_of_int_pos:
  assumes "0 < n" and "n \<le> 2 ^ 53"
  shows "round64 (of_int n) = Fin (of_int n)"
proof -
  define k where "k = bitlen n - 1"
  have k0: "0 \<le> k"
    using assms(1) by (simp add: k_def bitlen_alt_def)
  have lo: "(2::int) ^ nat k \<le> n"
    using bitlen_bounds [OF assms(1)] by (simp add: k_def)
  have "k \<le> 53"
  proof (rule ccontr)
    assume "\<not> k \<le> 53"
    then have "54 \<le> nat k" by simp
    then have "(2::int) ^ 54 \<le> 2 ^ nat k"
      by (intro power_increasing) simp_all
    with lo assms(2) show False by simp
  qed
  have il: "ilog2 (of_int n) = k"
    using assms(1) ilog2_of_int [of n] by (simp add: k_def)
  have pos: "(0::rat) < of_int n"
    using assms(1) by simp
  show ?thesis
  proof (cases "k \<le> 52")
    case True
    have "(2::rat) powi (52 - k) = inverse (2 powi (k - 52))"
      by (simp flip: power_int_minus)
    then have "(of_int n :: rat) / 2 powi (k - 52) = of_int n * 2 powi (52 - k)"
      by (simp add: divide_inverse)
    also have "\<dots> = of_int (n * 2 ^ nat (52 - k))"
      using True by (simp add: power_int_def)
    finally have d: "(of_int n :: rat) / 2 powi (k - 52) = of_int (n * 2 ^ nat (52 - k))" .
    have undo: "(of_int (n * 2 ^ nat (52 - k)) :: rat) * 2 powi (k - 52) = of_int n"
      using d by (simp add: field_simps)
    have "round_half_even (of_int n / 2 powi (k - 52)) = n * 2 ^ nat (52 - k)"
      unfolding d by (rule round_half_even_of_int)
    from round64_pos_finite [OF pos il _ _ this] k0 True undo
    show ?thesis by simp
  next
    case False
    with \<open>k \<le> 53\<close> have k53: "k = 53" by simp
    with lo assms(2) have n: "n = 2 ^ 53" by simp
    have "(of_int n :: rat) / 2 powi (k - 52) = of_int (2 ^ 52)"
      by (simp add: k53 n)
    then have "round_half_even (of_int n / 2 powi (k - 52)) = 2 ^ 52"
      by (simp only: round_half_even_of_int)
    from round64_pos_finite [OF pos il _ _ this]
    show ?thesis by (simp add: k53 n)
  qed
qed

lemma fneg_fneg: "fneg (fneg x) = x"
  by (cases x) simp_all

lemma round64_minus: "round64 (- q) = fneg (round64 q)"
  by (simp add: round64_def fneg_fneg)

lemma round64_of_int:
  assumes "\<bar>n\<bar> \<le> 2 ^ 53"
  shows "round64 (of_int n) = Fin (of_int n)"
proof -
  consider "n = 0" | "0 < n" | "n < 0" by linarith
  then show ?thesis
  proof cases
    case 1
    then show ?thesis by (simp add: round64_def)
  next
    case 2
    with assms show ?thesis by (simp add: round64_of_int_pos)
  next
    case 3
    with assms have "round64 (of_int (- n)) = Fin (of_int (- n))"
      by (intro round64_of_int_pos) simp_all
    then have "fneg (round64 (of_int n)) = Fin (- of_int n)"
      by (simp add: round64_minus)
    then show ?thesis by (cases "round64 (of_int n)") simp_all
  qed
qed

lemma round64_0: "round64 0 = Fin 0"
  by (simp add: round64_def)

lemma round64_1: "round64 1 = Fin 1"
  using round64_of_int [of 1] by simp

lemma round64_numeral:
  "numeral k \<le> (2::int) ^ 53 \<Longrightarrow> round64 (numeral k) = Fin (numeral k)"
  using round64_of_int [of "numeral k"] by simp

lemma round64_neg_numeral:
  "numeral k \<le> (2::int) ^ 53 \<Longrightarrow> round64 (- numeral k) = Fin (- numeral k)"
  using round64_of_int [of "- numeral k"] by simp

lemma round64_neg_1: "round64 (- 1) = Fin (- 1)"
  using round64_of_int [of "- 1"] by simp

lemmas round64_small = round64_0 round64_1 round64_neg_1 round64_numeral round64_neg_numeral

lemma fmul_commute: "fmul x y = fmul y x"
  by (cases x; cases y) (auto simp: mult.commute)

lemma fsub_swap: "fsub x y = fneg (fsub y x)"
proof (cases x; cases y)
  fix a b
  assume "x = Fin a" "y = Fin b"
  then show ?thesis
    using round64_minus [of "b - a"] by simp
qed simp_all

lemma feq_fneg_0: "feq (fneg x) (Fin 0) = feq x (Fin 0)"
  by (cases x) (simp_all add: feq_def)

lemma fgt_fneg_0: "fgt (fneg x) (Fin 0) = flt x (Fin 0)"
  by (cases x) (simp_all add: fgt_def)

lemma flt_NaN_right: "flt x NaN = False"
  by (cases x) simp_all

lemma round_half_even_near: "\<bar>of_int (round_half_even q) - q\<bar> \<le> 1 / 2"
proof -
  have "of_int \<lfloor>q\<rfloor> \<le> q" "q < of_int \<lfloor>q\<rfloor> + 1"
    by linarith+
  then show ?thesis
    by (auto simp: round_half_even_def Let_def)
qed

lemma fsub_of_int:
  assumes "\<bar>a - b\<bar> \<le> 2 ^ 53"
  shows "fsub (Fin (of_int a)) (Fin (of_int b)) = Fin (of_int (a - b))"
  using round64_of_int [OF assms] by simp

lemma fmul_of_int:
  assumes "\<bar>a * b\<bar> \<le> 2 ^ 53"
  shows "fmul (Fin (of_int a)) (Fin (of_int b)) = Fin (of_int (a * b))"
  using round64_of_int [OF assms] by simp

lemma abs_diff_bound:
  fixes a b :: int
  assumes "\<bar>a\<bar> \<le> m" and "\<bar>b\<bar> \<le> m"
  shows "\<bar>a - b\<bar> \<le> 2 * m"
  using assms by linarith

lemma abs_mult_bound:
  fixes a b :: int
  assumes "\<bar>a\<bar> \<le> m" and "\<bar>b\<bar> \<le> m"
  shows "\<bar>a * b\<bar> \<le> m * m"
  unfolding abs_mult using assms by (intro mult_mono) simp_all

text \<open>Beyond 53 bits rounding shows: \<open>2 ^ 54 - 1\<close> and \<open>2 ^ 53 + 1\<close> are not binary64 values.\<close>

lemma ilog2_unique:
  assumes "0 < q" and "2 powi k \<le> q" and "q < 2 powi (k + 1)"
  shows "ilog2 q = k"
proof -
  have lo: "2 powi ilog2 q \<le> q" and hi: "q < 2 powi (ilog2 q + 1)"
    using ilog2_bounds [OF assms(1)] by simp_all
  have a: "ilog2 q < k + 1"
  proof (rule ccontr)
    assume "\<not> ilog2 q < k + 1"
    then have "(2::rat) powi (k + 1) \<le> 2 powi ilog2 q"
      by (intro power_int_increasing) simp_all
    with lo assms(3) show False by simp
  qed
  have "k < ilog2 q + 1"
  proof (rule ccontr)
    assume "\<not> k < ilog2 q + 1"
    then have "(2::rat) powi (ilog2 q + 1) \<le> 2 powi k"
      by (intro power_int_increasing) simp_all
    with hi assms(2) show False by simp
  qed
  with a show ?thesis by simp
qed

lemma round64_pos_eval:
  assumes "0 < q" and "2 powi k \<le> q" and "q < 2 powi (k + 1)" and "- 1022 \<le> k" and "k < 1023"
    and "round_half_even (q / 2 powi (k - 52)) = m"
  shows "round64 q = Fin (of_int m * 2 powi (k - 52))"
  using round64_pos_finite [OF assms(1) ilog2_unique [OF assms(1-3)] assms(4-6)] .

lemma floor_numeral_div_rat: "\<lfloor>(numeral a :: rat) / numeral b\<rfloor> = numeral a div numeral b"
  using floor_divide_of_int_eq [of "numeral a" "numeral b", where ?'a = rat] by simp

lemma round64_2_54_minus_1: "round64 (2 ^ 54 - 1) = Fin (2 ^ 54)"
  using round64_pos_eval [of "2 ^ 54 - 1" 53 "2 ^ 53"]
  by (simp add: round_half_even_def Let_def floor_numeral_div_rat)

lemma round64_2_53_plus_1: "round64 (2 ^ 53 + 1) = Fin (2 ^ 53)"
  using round64_pos_eval [of "2 ^ 53 + 1" 53 "2 ^ 52"]
  by (simp add: round_half_even_def Let_def floor_numeral_div_rat)

lemma round64_2_54: "round64 (2 ^ 54) = Fin (2 ^ 54)"
  using round64_pos_eval [of "2 ^ 54" 54 "2 ^ 52"]
  by (simp add: round_half_even_def Let_def floor_numeral_div_rat)

lemma round64_3_2_53: "round64 (3 * 2 ^ 53) = Fin (3 * 2 ^ 53)"
  using round64_pos_eval [of "3 * 2 ^ 53" 54 "3 * 2 ^ 51"]
  by (simp add: round_half_even_def Let_def floor_numeral_div_rat)

lemma round64_beyond_53_bits:
  "round64 18014398509481983 = Fin 18014398509481984"
  "round64 9007199254740993 = Fin 9007199254740992"
  "round64 18014398509481984 = Fin 18014398509481984"
  "round64 (- 18014398509481984) = Fin (- 18014398509481984)"
  "round64 27021597764222976 = Fin 27021597764222976"
  "round64 (- 27021597764222976) = Fin (- 27021597764222976)"
  using round64_2_54_minus_1 round64_2_53_plus_1 round64_2_54 round64_3_2_53 round64_minus [of "2 ^ 54"] round64_minus [of "3 * 2 ^ 53"]
  by simp_all

section \<open>Facts about the constructor's loop\<close>

lemma yields_ring_eval:
  assumes "yields_ring row arg"
  shows "eval arg row = (LinestringV (ring_of row arg), None)"
    and "isLinearRing (ring_of row arg) = Returns True"
  using assms
  by (auto simp: yields_ring_def ring_of_def split: prod.splits Value.splits option.splits)

lemma Eval_loop_ring_step:
  assumes "yields_ring row arg"
  shows "Eval_loop (arg # rest) row i lines = Eval_loop rest row (Suc i) (lines[i := ring_of row arg])"
  using yields_ring_eval [OF assms] by simp

text \<open>
  The loop over a prefix of accepted children writes their Linestrings, in order,
  from position \<open>i\<close> on and goes on with the rest.
\<close>

lemma Eval_loop_rings:
  assumes "list_all (yields_ring row) pre" and "i + length pre \<le> length lines"
  shows "Eval_loop (pre @ rest) row i lines =
         Eval_loop rest row (i + length pre)
           (take i lines @ map (ring_of row) pre @ drop (i + length pre) lines)"
  using assms
proof (induction pre arbitrary: i lines)
  case Nil
  then show ?case by simp
next
  case (Cons arg pre)
  from Cons.prems have ring: "yields_ring row arg" and rings: "list_all (yields_ring row) pre"
    by simp_all
  from Cons.prems have i: "i < length lines" and len: "Suc i + length pre \<le> length (lines[i := ring_of row arg])"
    by simp_all
  have t: "take (Suc i) (lines[i := ring_of row arg]) = take i lines @ [ring_of row arg]"
    using i by (simp add: take_Suc_conv_app_nth)
  have d: "drop (Suc i + length pre) (lines[i := ring_of row arg]) = drop (Suc i + length pre) lines"
    by simp
  have "Eval_loop ((arg # pre) @ rest) row i lines =
        Eval_loop (pre @ rest) row (Suc i) (lines[i := ring_of row arg])"
    using Eval_loop_ring_step [OF ring] by simp
  also have "\<dots> = Eval_loop rest row (Suc i + length pre)
      (take (Suc i) (lines[i := ring_of row arg]) @ map (ring_of row) pre @
       drop (Suc i + length pre) (lines[i := ring_of row arg]))"
    by (rule Cons.IH [OF rings len])
  finally show ?case
    by (simp add: t d)
qed

lemma Eval_prefix:
  assumes "list_all (yields_ring row) pre"
  shows "Eval \<lparr>args = pre @ rest\<rparr> row =
         Eval_loop rest row (length pre)
           (map (ring_of row) pre @ replicate (length rest) \<lparr>Points = []\<rparr>)"
  using Eval_loop_rings [OF assms, of 0 "replicate (length (pre @ rest)) \<lparr>Points = []\<rparr>" rest]
  by (simp add: Eval_def)

lemma Eval_all_rings:
  assumes "list_all (yields_ring row) as"
  shows "Eval \<lparr>args = as\<rparr> row = Returns (PolygonV \<lparr>Lines = map (ring_of row) as\<rparr>, None)"
  using Eval_prefix [OF assms, of "[]"] by simp

lemma Eval_first_error:
  assumes "list_all (yields_ring row) pre" and "eval c row = (v, Some e)"
  shows "Eval \<lparr>args = pre @ c # post\<rparr> row = Returns (Nil, Some e)"
  using assms(2) by (simp add: Eval_prefix [OF assms(1)])

lemma Eval_first_non_linestring:
  assumes "list_all (yields_ring row) pre" and "eval c row = (v, None)" and "\<not> is_Linestring v"
  shows "Eval \<lparr>args = pre @ c # post\<rparr> row =
         Returns (Nil, Some (ErrorNew ''polygon constructor encountered a non-linestring''))"
  using assms(2,3) by (cases v) (simp_all add: Eval_prefix [OF assms(1)])

lemma Eval_first_non_ring:
  assumes "list_all (yields_ring row) pre" and "eval c row = (LinestringV ls, None)"
    and "isLinearRing ls = Returns False"
  shows "Eval \<lparr>args = pre @ c # post\<rparr> row =
         Returns (Nil, Some (ErrorNew ''polygon constructor encountered a non-linearring''))"
  using assms(2,3) by (simp add: Eval_prefix [OF assms(1)])

lemma Eval_first_panic:
  assumes "list_all (yields_ring row) pre" and "eval c row = (LinestringV ls, None)"
    and "isLinearRing ls = Panics e"
  shows "Eval \<lparr>args = pre @ c # post\<rparr> row = Panics e"
  using assms(2,3) by (simp add: Eval_prefix [OF assms(1)])

lemma Eval_loop_success:
  assumes "Eval_loop as row i lines = Returns (v, None)"
  shows "list_all (yields_ring row) as"
  using assms
proof (induction as arbitrary: i lines)
  case Nil
  then show ?case by simp
next
  case (Cons arg as)
  from Cons.prems obtain ls where ev: "eval arg row = (LinestringV ls, None)"
    and ok: "isLinearRing ls = Returns True"
    and rest: "Eval_loop as row (Suc i) (lines[i := ls]) = Returns (v, None)"
    by (auto split: prod.splits option.splits Value.splits outcome.splits if_splits)
  from ev ok have "yields_ring row arg"
    by (simp add: yields_ring_def)
  moreover from rest have "list_all (yields_ring row) as"
    by (rule Cons.IH)
  ultimately show ?case by simp
qed

lemma Eval_loop_failure:
  assumes "Eval_loop as row i lines = Returns (v, Some e)"
  shows "v = Nil"
  using assms
proof (induction as arbitrary: i lines)
  case Nil
  then show ?case by simp
next
  case (Cons arg as)
  show ?case
  proof (cases "yields_ring row arg")
    case True
    with Cons.prems have "Eval_loop as row (Suc i) (lines[i := ring_of row arg]) = Returns (v, Some e)"
      by (simp only: Eval_loop_ring_step)
    then show ?thesis by (rule Cons.IH)
  next
    case False
    with Cons.prems show ?thesis
      by (auto simp: yields_ring_def split: prod.splits option.splits Value.splits outcome.splits if_splits)
  qed
qed

lemma Eval_success:
  assumes "Eval \<lparr>args = as\<rparr> row = Returns (v, None)"
  shows "list_all (yields_ring row) as \<and> v = PolygonV \<lparr>Lines = map (ring_of row) as\<rparr>"
proof -
  from assms have rings: "list_all (yields_ring row) as"
    unfolding Eval_def by (auto dest: Eval_loop_success)
  with assms Eval_all_rings [OF rings] show ?thesis by simp
qed

lemma Eval_failure:
  assumes "Eval \<lparr>args = as\<rparr> row = Returns (v, Some e)"
  shows "v = Nil"
  using assms unfolding Eval_def by (auto dest: Eval_loop_failure)

section \<open>Linear rings\<close>

lemma isLinearRing_closed_ring: "isLinearRing closed_ring = Returns True"
  by (simp add: isLinearRing_def closed_ring_def index_def point_eq_def feq_def pt_def)

lemma isLinearRing_open_path: "isLinearRing open_path = Returns False"
  by (simp add: isLinearRing_def open_path_def index_def point_eq_def feq_def pt_def)

lemma isLinearRing_bowtie: "isLinearRing bowtie = Returns True"
  by (simp add: isLinearRing_def bowtie_def index_def point_eq_def feq_def pt_def)

lemma isLinearRing_empty: "isLinearRing \<lparr>Points = []\<rparr> = Panics (IndexOutOfRange 0 0)"
  by (simp add: isLinearRing_def index_def)

lemma bowtie_crosses:
  "lineSegmentsIntersect (Points bowtie ! 0) (Points bowtie ! 1) (Points bowtie ! 2) (Points bowtie ! 3)"
  by (simp add: bowtie_def lineSegmentsIntersect_def pointOrientation_def pt_def
      round64_small feq_def fgt_def)

text \<open>
  C2. For a Linestring of one to three points \<open>isLinearRing\<close> returns false. For
  four or more points it returns whether the first and the last point are equal:
  false when they differ, true when they are equal. Nothing else is looked at, so
  a closed ring is accepted whether or not it intersects itself; \<open>bowtie\<close> is a
  closed ring whose first and third segments cross, and it is accepted.
\<close>

theorem isLinearRing_count_and_closure:
  "(1 \<le> length (Points l) \<and> length (Points l) \<le> 3 \<longrightarrow> isLinearRing l = Returns False) \<and>
   (4 \<le> length (Points l) \<and> \<not> point_eq (Points l ! 0) (Points l ! (length (Points l) - 1)) \<longrightarrow>
      isLinearRing l = Returns False) \<and>
   (4 \<le> length (Points l) \<and> point_eq (Points l ! 0) (Points l ! (length (Points l) - 1)) \<longrightarrow>
      isLinearRing l = Returns True) \<and>
   lineSegmentsIntersect (Points bowtie ! 0) (Points bowtie ! 1) (Points bowtie ! 2) (Points bowtie ! 3) \<and>
   isLinearRing bowtie = Returns True"
proof -
  have last: "nat (int (length (Points l)) - 1) = length (Points l) - 1"
    by simp
  have few: "isLinearRing l = Returns False"
    if "1 \<le> length (Points l)" "length (Points l) \<le> 3"
    using that by (auto simp: isLinearRing_def)
  have many: "isLinearRing l = Returns (point_eq (Points l ! 0) (Points l ! (length (Points l) - 1)))"
    if "4 \<le> length (Points l)"
  proof -
    have i0: "index (Points l) 0 = Returns (Points l ! 0)"
      using that by (auto simp: index_def)
    have il: "index (Points l) (int (length (Points l)) - 1) = Returns (Points l ! (length (Points l) - 1))"
      using that by (auto simp: index_def last)
    from that show ?thesis
      by (simp add: isLinearRing_def Let_def i0 il)
  qed
  from few many bowtie_crosses isLinearRing_bowtie show ?thesis
    by simp
qed

theorem isLinearRing_count_and_closure_witness:
  "1 \<le> length (Points \<lparr>Points = [pt 0 0, pt 0 0]\<rparr>) \<and>
   length (Points \<lparr>Points = [pt 0 0, pt 0 0]\<rparr>) \<le> 3 \<and>
   isLinearRing \<lparr>Points = [pt 0 0, pt 0 0]\<rparr> = Returns False \<and>
   4 \<le> length (Points open_path) \<and>
   \<not> point_eq (Points open_path ! 0) (Points open_path ! (length (Points open_path) - 1)) \<and>
   isLinearRing open_path = Returns False \<and>
   4 \<le> length (Points bowtie) \<and>
   point_eq (Points bowtie ! 0) (Points bowtie ! (length (Points bowtie) - 1)) \<and>
   isLinearRing bowtie = Returns True"
proof -
  have short: "1 \<le> length (Points \<lparr>Points = [pt 0 0, pt 0 0]\<rparr>) \<and>
      length (Points \<lparr>Points = [pt 0 0, pt 0 0]\<rparr>) \<le> 3"
    by simp
  have opened: "4 \<le> length (Points open_path) \<and>
      \<not> point_eq (Points open_path ! 0) (Points open_path ! (length (Points open_path) - 1))"
    by (simp add: open_path_def point_eq_def feq_def pt_def)
  have closed: "4 \<le> length (Points bowtie) \<and>
      point_eq (Points bowtie ! 0) (Points bowtie ! (length (Points bowtie) - 1))"
    by (simp add: bowtie_def point_eq_def feq_def pt_def)
  from short opened closed
    isLinearRing_count_and_closure [of "\<lparr>Points = [pt 0 0, pt 0 0]\<rparr>"]
    isLinearRing_count_and_closure [of open_path]
    isLinearRing_count_and_closure [of bowtie]
  show ?thesis by blast
qed

text \<open>
  C7. On the empty Linestring \<open>isLinearRing\<close> reads position 0 of an empty slice
  and panics with an index out of range. \<open>Eval\<close> panics in the same way when
  the first child that is not an accepted ring evaluates to the empty Linestring.
\<close>

theorem isLinearRing_empty_panics:
  "isLinearRing \<lparr>Points = []\<rparr> = Panics (IndexOutOfRange 0 0) \<and>
   (list_all (yields_ring row) pre \<and> eval c row = (LinestringV \<lparr>Points = []\<rparr>, None) \<longrightarrow>
      Eval \<lparr>args = pre @ c # post\<rparr> row = Panics (IndexOutOfRange 0 0))"
  using Eval_first_panic [of row pre c "\<lparr>Points = []\<rparr>" "IndexOutOfRange 0 0" post]
  by (simp add: isLinearRing_empty)

theorem isLinearRing_empty_panics_witness:
  "list_all (yields_ring []) [const_expr (LinestringV closed_ring) False] \<and>
   eval (const_expr (LinestringV \<lparr>Points = []\<rparr>) False) [] = (LinestringV \<lparr>Points = []\<rparr>, None) \<and>
   Eval \<lparr>args = [const_expr (LinestringV closed_ring) False,
                  const_expr (LinestringV \<lparr>Points = []\<rparr>) False,
                  failing_expr (ErrorNew ''not reached'')]\<rparr> [] = Panics (IndexOutOfRange 0 0)"
proof -
  have rings: "list_all (yields_ring []) [const_expr (LinestringV closed_ring) False]"
    by (simp add: yields_ring_def const_expr_def isLinearRing_closed_ring)
  have empty: "eval (const_expr (LinestringV \<lparr>Points = []\<rparr>) False) [] = (LinestringV \<lparr>Points = []\<rparr>, None)"
    by (simp add: const_expr_def)
  from rings empty
    isLinearRing_empty_panics [of "[]" "[const_expr (LinestringV closed_ring) False]"
      "const_expr (LinestringV \<lparr>Points = []\<rparr>) False" "[failing_expr (ErrorNew ''not reached'')]"]
  show ?thesis by simp
qed

section \<open>Evaluation of the constructor\<close>

lemma yields_ring_const_closed_ring: "yields_ring row (const_expr (LinestringV closed_ring) n)"
  by (simp add: yields_ring_def const_expr_def isLinearRing_closed_ring)

lemma ring_of_const: "ring_of row (const_expr (LinestringV ls) n) = ls"
  by (simp add: ring_of_def const_expr_def)

text \<open>
  C1. \<open>Eval\<close> goes through the children in argument order and stops at the first
  one that is not an accepted ring: when \<open>pre\<close> are accepted rings and \<open>c\<close> is the
  next child, then whatever follows \<open>c\<close>,
  \<^item> an evaluation error of \<open>c\<close> is returned as it is;
  \<^item> a value of \<open>c\<close> that is not a Linestring gives the non-linestring error;
  \<^item> a Linestring of \<open>c\<close> for which \<open>isLinearRing\<close> returns false gives the
    non-linearring error.
  When every child is an accepted ring, the result is the Polygon of the evaluated
  Linestrings in argument order. A result without error is always that Polygon with
  every child accepted, and a result with an error carries the value \<open>Nil\<close>:
  no partial or default Polygon comes with a failure.
\<close>

theorem Eval_first_failure_or_polygon:
  assumes "list_all (yields_ring row) pre"
  shows "(eval c row = (v, Some e) \<longrightarrow>
            Eval \<lparr>args = pre @ c # post\<rparr> row = Returns (Nil, Some e)) \<and>
         (eval c row = (v, None) \<and> \<not> is_Linestring v \<longrightarrow>
            Eval \<lparr>args = pre @ c # post\<rparr> row =
            Returns (Nil, Some (ErrorNew ''polygon constructor encountered a non-linestring''))) \<and>
         (eval c row = (LinestringV ls, None) \<and> isLinearRing ls = Returns False \<longrightarrow>
            Eval \<lparr>args = pre @ c # post\<rparr> row =
            Returns (Nil, Some (ErrorNew ''polygon constructor encountered a non-linearring''))) \<and>
         Eval \<lparr>args = pre\<rparr> row = Returns (PolygonV \<lparr>Lines = map (ring_of row) pre\<rparr>, None) \<and>
         (Eval \<lparr>args = as\<rparr> row = Returns (w, None) \<longrightarrow>
            list_all (yields_ring row) as \<and> w = PolygonV \<lparr>Lines = map (ring_of row) as\<rparr>) \<and>
         (Eval \<lparr>args = as\<rparr> row = Returns (w, Some e') \<longrightarrow> w = Nil)"
  using Eval_first_error [OF assms, of c v e post]
    Eval_first_non_linestring [OF assms, of c v post]
    Eval_first_non_ring [OF assms, of c ls post]
    Eval_all_rings [OF assms]
    Eval_success [of as row w]
    Eval_failure [of as row w e']
  by blast

theorem Eval_first_failure_or_polygon_witness:
  "list_all (yields_ring []) [const_expr (LinestringV closed_ring) False, const_expr (LinestringV bowtie) False] \<and>
   eval (failing_expr (ErrorNew ''child failed'')) [] = (Nil, Some (ErrorNew ''child failed'')) \<and>
   Eval \<lparr>args = [const_expr (LinestringV closed_ring) False, const_expr (LinestringV bowtie) False,
                  failing_expr (ErrorNew ''child failed''), const_expr (Int64V 1) False]\<rparr> [] =
     Returns (Nil, Some (ErrorNew ''child failed'')) \<and>
   eval (const_expr (Int64V 1) False) [] = (Int64V 1, None) \<and> \<not> is_Linestring (Int64V 1) \<and>
   Eval \<lparr>args = [const_expr (LinestringV closed_ring) False, const_expr (LinestringV bowtie) False,
                  const_expr (Int64V 1) False, failing_expr (ErrorNew ''child failed'')]\<rparr> [] =
     Returns (Nil, Some (ErrorNew ''polygon constructor encountered a non-linestring'')) \<and>
   eval (const_expr (LinestringV open_path) False) [] = (LinestringV open_path, None) \<and>
   isLinearRing open_path = Returns False \<and>
   Eval \<lparr>args = [const_expr (LinestringV closed_ring) False, const_expr (LinestringV bowtie) False,
                  const_expr (LinestringV open_path) False, failing_expr (ErrorNew ''child failed'')]\<rparr> [] =
     Returns (Nil, Some (ErrorNew ''polygon constructor encountered a non-linearring'')) \<and>
   Eval \<lparr>args = [const_expr (LinestringV closed_ring) False, const_expr (LinestringV bowtie) False]\<rparr> [] =
     Returns (PolygonV \<lparr>Lines = [closed_ring, bowtie]\<rparr>, None)"
proof -
  let ?pre = "[const_expr (LinestringV closed_ring) False, const_expr (LinestringV bowtie) False]"
  have rings: "list_all (yields_ring []) ?pre"
    by (simp add: yields_ring_def const_expr_def isLinearRing_closed_ring isLinearRing_bowtie)
  have fails: "eval (failing_expr (ErrorNew ''child failed'')) [] = (Nil, Some (ErrorNew ''child failed''))"
    by (simp add: failing_expr_def)
  have number: "eval (const_expr (Int64V 1) False) [] = (Int64V 1, None) \<and> \<not> is_Linestring (Int64V 1)"
    by (simp add: const_expr_def)
  have opened: "eval (const_expr (LinestringV open_path) False) [] = (LinestringV open_path, None) \<and>
      isLinearRing open_path = Returns False"
    by (simp add: const_expr_def isLinearRing_open_path)
  have lines: "map (ring_of []) ?pre = [closed_ring, bowtie]"
    by (simp add: ring_of_const)
  from rings fails number opened lines
    Eval_first_failure_or_polygon [OF rings, of "failing_expr (ErrorNew ''child failed'')" Nil
      "ErrorNew ''child failed''" "[const_expr (Int64V 1) False]" open_path
      "?pre @ [failing_expr (ErrorNew ''child failed''), const_expr (Int64V 1) False]" Nil
      "ErrorNew ''child failed''"]
    Eval_first_failure_or_polygon [OF rings, of "const_expr (Int64V 1) False" "Int64V 1"
      "ErrorNew ''child failed''" "[failing_expr (ErrorNew ''child failed'')]" open_path
      ?pre "PolygonV \<lparr>Lines = [closed_ring, bowtie]\<rparr>" "ErrorNew ''child failed''"]
    Eval_first_failure_or_polygon [OF rings, of "const_expr (LinestringV open_path) False"
      "LinestringV open_path" "ErrorNew ''child failed''"
      "[failing_expr (ErrorNew ''child failed'')]" open_path
      ?pre "PolygonV \<lparr>Lines = [closed_ring, bowtie]\<rparr>" "ErrorNew ''child failed''"]
  show ?thesis by simp
qed

text \<open>
  C10, as stated: if any child evaluates to \<open>Nil\<close> without error, \<open>Eval\<close> returns
  the non-linestring error. With an open path as first child and a \<open>Nil\<close> child
  after it, \<open>Eval\<close> stops at the first child and returns the non-linearring
  error; the \<open>Nil\<close> child is not evaluated.
\<close>

theorem Eval_null_child_counterexample:
  "eval (const_expr Nil True) [] = (Nil, None) \<and>
   const_expr Nil True \<in> set (args \<lparr>args = [const_expr (LinestringV open_path) False, const_expr Nil True]\<rparr>) \<and>
   Eval \<lparr>args = [const_expr (LinestringV open_path) False, const_expr Nil True]\<rparr> [] =
     Returns (Nil, Some (ErrorNew ''polygon constructor encountered a non-linearring'')) \<and>
   Eval \<lparr>args = [const_expr (LinestringV open_path) False, const_expr Nil True]\<rparr> [] \<noteq>
     Returns (Nil, Some (ErrorNew ''polygon constructor encountered a non-linestring''))"
proof -
  have "Eval \<lparr>args = [const_expr (LinestringV open_path) False, const_expr Nil True]\<rparr> [] =
      Returns (Nil, Some (ErrorNew ''polygon constructor encountered a non-linearring''))"
    by (simp add: Eval_def const_expr_def isLinearRing_open_path)
  then show ?thesis
    by (simp add: const_expr_def)
qed

text \<open>
  C10, amended. A child that evaluates to \<open>Nil\<close> (SQL NULL) without error is not a
  Linestring: when every child before it is an accepted ring, \<open>Eval\<close> returns the
  non-linestring error; wherever it stands among the children, \<open>Eval\<close> returns no
  value without error. \<open>Eval\<close> never returns the pair of \<open>Nil\<close> and no error,
  whatever \<open>IsNullable\<close> says.
\<close>

theorem Eval_null_child:
  "(list_all (yields_ring row) pre \<and> eval c row = (Nil, None) \<longrightarrow>
      Eval \<lparr>args = pre @ c # post\<rparr> row =
      Returns (Nil, Some (ErrorNew ''polygon constructor encountered a non-linestring''))) \<and>
   (c \<in> set (args l) \<and> eval c row = (Nil, None) \<longrightarrow> Eval l row \<noteq> Returns (v, None)) \<and>
   Eval l row \<noteq> Returns (Nil, None)"
proof -
  have success: "list_all (yields_ring row) (args l)" if "Eval l row = Returns (w, None)" for w
  proof -
    from that have "Eval \<lparr>args = args l\<rparr> row = Returns (w, None)"
      by (simp add: Eval_def)
    from Eval_success [OF this] show ?thesis by simp
  qed
  have never: "Eval l row \<noteq> Returns (Nil, None)"
  proof
    assume "Eval l row = Returns (Nil, None)"
    then have "Eval \<lparr>args = args l\<rparr> row = Returns (Nil, None)"
      by (simp add: Eval_def)
    from Eval_success [OF this] show False by simp
  qed
  have anywhere: "Eval l row \<noteq> Returns (v, None)"
    if "c \<in> set (args l)" "eval c row = (Nil, None)"
  proof
    assume "Eval l row = Returns (v, None)"
    then have "list_all (yields_ring row) (args l)"
      by (rule success)
    with that(1) have "yields_ring row c"
      by (simp add: list_all_iff)
    with that(2) show False
      by (simp add: yields_ring_def)
  qed
  from never anywhere show ?thesis
    using Eval_first_non_linestring [of row pre c Nil post] by simp
qed

theorem Eval_null_child_witness:
  "list_all (yields_ring []) [const_expr (LinestringV closed_ring) False] \<and>
   eval (const_expr Nil True) [] = (Nil, None) \<and>
   const_expr Nil True \<in> set (args \<lparr>args = [const_expr (LinestringV closed_ring) False, const_expr Nil True]\<rparr>) \<and>
   IsNullable \<lparr>args = [const_expr (LinestringV closed_ring) False, const_expr Nil True]\<rparr> \<and>
   Eval \<lparr>args = [const_expr (LinestringV closed_ring) False, const_expr Nil True]\<rparr> [] =
     Returns (Nil, Some (ErrorNew ''polygon constructor encountered a non-linestring'')) \<and>
   Eval \<lparr>args = [const_expr (LinestringV closed_ring) False, const_expr Nil True]\<rparr> [] \<noteq>
     Returns (PolygonV \<lparr>Lines = [closed_ring]\<rparr>, None)"
proof -
  have rings: "list_all (yields_ring []) [const_expr (LinestringV closed_ring) False]"
    by (simp add: yields_ring_const_closed_ring)
  have null: "eval (const_expr Nil True) [] = (Nil, None)"
    by (simp add: const_expr_def)
  have child: "const_expr Nil True \<in>
      set (args \<lparr>args = [const_expr (LinestringV closed_ring) False, const_expr Nil True]\<rparr>)"
    by simp
  have nullable: "IsNullable \<lparr>args = [const_expr (LinestringV closed_ring) False, const_expr Nil True]\<rparr>"
    by (simp add: IsNullable_def const_expr_def)
  from rings null child nullable
    Eval_null_child [of "[]" "[const_expr (LinestringV closed_ring) False]" "const_expr Nil True" "[]"
      "\<lparr>args = [const_expr (LinestringV closed_ring) False, const_expr Nil True]\<rparr>"
      "PolygonV \<lparr>Lines = [closed_ring]\<rparr>"]
  show ?thesis by simp
qed

section \<open>Construction\<close>

text \<open>
  C8. \<open>NewPolygon\<close> on no children fails with the argument-number error and
  allocates nothing; on one or more children it succeeds with a pointer to a new
  struct that holds them. \<open>WithChildren\<close> is \<open>NewPolygon\<close> on the new children:
  the same check, and on success a pointer different from the receiver's; the
  receiver's struct, child list included, is as it was.
\<close>

theorem NewPolygon_WithChildren:
  "NewPolygon s [] = (s, None, Some (ErrInvalidArgumentNumber ''Polygon'' ''1 or more'' 0)) \<and>
   (as \<noteq> [] \<longrightarrow> NewPolygon s as = (s @ [\<lparr>args = as\<rparr>], Some (length s), None)) \<and>
   WithChildren s l children = NewPolygon s children \<and>
   (l < length s \<longrightarrow>
      fst (snd (WithChildren s l children)) \<noteq> Some l \<and>
      fst (WithChildren s l children) ! l = s ! l \<and>
      args (fst (WithChildren s l children) ! l) = args (s ! l))"
proof -
  have "int (length as) < 1 \<longleftrightarrow> as = []" for as :: "Expression list"
    by (cases as) simp_all
  then show ?thesis
    by (simp add: NewPolygon_def WithChildren_def nth_append)
qed

theorem NewPolygon_WithChildren_witness:
  "[const_expr (LinestringV closed_ring) False] \<noteq> [] \<and>
   NewPolygon [] [const_expr (LinestringV closed_ring) False] =
     ([\<lparr>args = [const_expr (LinestringV closed_ring) False]\<rparr>], Some 0, None) \<and>
   (0::nat) < length [\<lparr>args = [const_expr (LinestringV closed_ring) False]\<rparr>] \<and>
   WithChildren [\<lparr>args = [const_expr (LinestringV closed_ring) False]\<rparr>] 0 [const_expr (LinestringV bowtie) False] =
     ([\<lparr>args = [const_expr (LinestringV closed_ring) False]\<rparr>, \<lparr>args = [const_expr (LinestringV bowtie) False]\<rparr>],
      Some 1, None) \<and>
   WithChildren [\<lparr>args = [const_expr (LinestringV closed_ring) False]\<rparr>] 0 [] =
     ([\<lparr>args = [const_expr (LinestringV closed_ring) False]\<rparr>], None,
      Some (ErrInvalidArgumentNumber ''Polygon'' ''1 or more'' 0))"
  using NewPolygon_WithChildren [of "[]" "[const_expr (LinestringV closed_ring) False]" 0 "[]"]
    NewPolygon_WithChildren [of "[\<lparr>args = [const_expr (LinestringV closed_ring) False]\<rparr>]"
      "[const_expr (LinestringV bowtie) False]" 0 "[const_expr (LinestringV bowtie) False]"]
    NewPolygon_WithChildren [of "[\<lparr>args = [const_expr (LinestringV closed_ring) False]\<rparr>]" "[]" 0 "[]"]
  by simp

section \<open>Orientation and segment intersection\<close>

lemma pointOrientation_cross:
  "pointOrientation p1 p2 p3 = sign_class (cross (vec p2 p3) (vec p1 p2))"
  by (simp add: pointOrientation_def sign_class_def cross_def vec_def
      Collinear_def Clockwise_def CounterClockwise_def fmul_commute [of "fsub (X p3) (X p2)"])

lemma cross_swap: "cross v u = fneg (cross u v)"
  unfolding cross_def
  by (subst fsub_swap) (simp add: fmul_commute)

text \<open>
  On points with integer coordinates of magnitude up to \<open>2 ^ 25\<close> every step of
  \<open>pointOrientation\<close> is exact, and the result is the sign class of the integer
  value of the source's expression.
\<close>

lemma pointOrientation_exact:
  assumes "\<bar>x1\<bar> \<le> 2 ^ 25" "\<bar>y1\<bar> \<le> 2 ^ 25" "\<bar>x2\<bar> \<le> 2 ^ 25" "\<bar>y2\<bar> \<le> 2 ^ 25"
    "\<bar>x3\<bar> \<le> 2 ^ 25" "\<bar>y3\<bar> \<le> 2 ^ 25"
  shows "pointOrientation (pt (of_int x1) (of_int y1)) (pt (of_int x2) (of_int y2)) (pt (of_int x3) (of_int y3)) =
         (let val = (y2 - y1) * (x3 - x2) - (y3 - y2) * (x2 - x1)
          in if val = 0 then 0 else if 0 < val then 1 else 2)"
proof -
  have d: "\<bar>y2 - y1\<bar> \<le> 2 ^ 26" "\<bar>x3 - x2\<bar> \<le> 2 ^ 26" "\<bar>y3 - y2\<bar> \<le> 2 ^ 26" "\<bar>x2 - x1\<bar> \<le> 2 ^ 26"
    using abs_diff_bound [OF assms(4) assms(2)] abs_diff_bound [OF assms(5) assms(3)]
      abs_diff_bound [OF assms(6) assms(4)] abs_diff_bound [OF assms(3) assms(1)]
    by simp_all
  have m: "\<bar>(y2 - y1) * (x3 - x2)\<bar> \<le> 2 ^ 52" "\<bar>(y3 - y2) * (x2 - x1)\<bar> \<le> 2 ^ 52"
    using abs_mult_bound [OF d(1) d(2)] abs_mult_bound [OF d(3) d(4)] by simp_all
  have s: "\<bar>(y2 - y1) * (x3 - x2) - (y3 - y2) * (x2 - x1)\<bar> \<le> 2 ^ 53"
    using abs_diff_bound [OF m] by simp
  have d': "\<bar>y2 - y1\<bar> \<le> 2 ^ 53" "\<bar>x3 - x2\<bar> \<le> 2 ^ 53" "\<bar>y3 - y2\<bar> \<le> 2 ^ 53" "\<bar>x2 - x1\<bar> \<le> 2 ^ 53"
    using d by simp_all
  have m': "\<bar>(y2 - y1) * (x3 - x2)\<bar> \<le> 2 ^ 53" "\<bar>(y3 - y2) * (x2 - x1)\<bar> \<le> 2 ^ 53"
    using m by simp_all
  have "fsub (fmul (fsub (Fin (of_int y2)) (Fin (of_int y1))) (fsub (Fin (of_int x3)) (Fin (of_int x2))))
             (fmul (fsub (Fin (of_int y3)) (Fin (of_int y2))) (fsub (Fin (of_int x2)) (Fin (of_int x1)))) =
        Fin (of_int ((y2 - y1) * (x3 - x2) - (y3 - y2) * (x2 - x1)))"
    by (simp only: fsub_of_int [OF d'(1)] fsub_of_int [OF d'(2)] fsub_of_int [OF d'(3)]
        fsub_of_int [OF d'(4)] fmul_of_int [OF m'(1)] fmul_of_int [OF m'(2)] fsub_of_int [OF s])
  then show ?thesis
    by (simp add: pointOrientation_def pt_def feq_def fgt_def Let_def del: of_int_diff of_int_mult)
qed

lemma lineSegmentsIntersect_diagonals:
  "lineSegmentsIntersect (pt 0 0) (pt 1 1) (pt 0 1) (pt 1 0)"
  by (simp add: lineSegmentsIntersect_def pointOrientation_def pt_def round64_small feq_def fgt_def)

lemma lineSegmentsIntersect_collinear_diagonal:
  "lineSegmentsIntersect (pt 0 0) (pt 2 2) (pt 1 1) (pt 3 3)"
  by (simp add: lineSegmentsIntersect_def onSegment_def fmin_def fmax_def pointOrientation_def
      pt_def round64_small feq_def fgt_def)

lemma not_strictly_between_same: "\<not> (fgt z (fmin y y) \<and> flt z (fmax y y))"
  by (cases y; cases z) (simp_all add: fgt_def fmin_def fmax_def)

text \<open>
  No point is on a horizontal or a vertical segment for \<open>onSegment\<close>: the strict
  test on the axis where the ends agree cannot hold.
\<close>

lemma onSegment_axis_aligned:
  assumes "Y a = Y b \<or> X a = X b"
  shows "\<not> onSegment a b c"
  using assms not_strictly_between_same [of "Y c" "Y b"] not_strictly_between_same [of "X c" "X b"]
  by (auto simp: onSegment_def)

section \<open>Exact geometry on integer points\<close>

lemma convex_between:
  fixes \<alpha> \<beta> x y :: int
  assumes "0 \<le> \<alpha>" and "0 \<le> \<beta>"
  shows "(\<alpha> + \<beta>) * min x y \<le> \<alpha> * x + \<beta> * y" and "\<alpha> * x + \<beta> * y \<le> (\<alpha> + \<beta>) * max x y"
proof -
  have "\<alpha> * min x y \<le> \<alpha> * x" "\<beta> * min x y \<le> \<beta> * y"
    using assms by (simp_all add: mult_left_mono)
  then show "(\<alpha> + \<beta>) * min x y \<le> \<alpha> * x + \<beta> * y"
    by (simp add: distrib_right)
  have "\<alpha> * x \<le> \<alpha> * max x y" "\<beta> * y \<le> \<beta> * max x y"
    using assms by (simp_all add: mult_left_mono)
  then show "\<alpha> * x + \<beta> * y \<le> (\<alpha> + \<beta>) * max x y"
    by (simp add: distrib_right)
qed

text \<open>
  The crossing test in exact arithmetic. When the ends of each segment fall in
  different sign classes for the line through the other, the two lines meet in a
  point of both segments, and the coordinate ranges of the segments overlap. With
  \<open>fc\<close>, \<open>fd\<close> the values for the line through \<open>a\<close> and \<open>b\<close> and \<open>ga\<close>, \<open>gb\<close> those for
  the line through \<open>c\<close> and \<open>d\<close>, the meeting point times \<open>fc - fd\<close> is both
  \<open>fc * d - fd * c\<close> and \<open>gb * a - ga * b\<close>.
\<close>

lemma crossing_ranges_overlap:
  fixes ax ay bx by' cx cy dx dy :: int
  defines "fc \<equiv> (by' - ay) * (cx - bx) - (cy - by') * (bx - ax)"
    and "fd \<equiv> (by' - ay) * (dx - bx) - (dy - by') * (bx - ax)"
    and "ga \<equiv> (dy - cy) * (ax - dx) - (ay - dy) * (dx - cx)"
    and "gb \<equiv> (dy - cy) * (bx - dx) - (by' - dy) * (dx - cx)"
  assumes ab: "sign3 fc \<noteq> sign3 fd" and cd: "sign3 ga \<noteq> sign3 gb"
  shows "min cx dx \<le> max ax bx \<and> min ax bx \<le> max cx dx \<and>
         min cy dy \<le> max ay by' \<and> min ay by' \<le> max cy dy"
proof -
  define D where "D = fc - fd"
  have g: "gb - ga = D"
    by (simp add: D_def fc_def fd_def ga_def gb_def algebra_simps)
  have ix: "fc * dx - fd * cx = gb * ax - ga * bx"
    by (simp add: fc_def fd_def ga_def gb_def algebra_simps)
  have iy: "fc * dy - fd * cy = gb * ay - ga * by'"
    by (simp add: fc_def fd_def ga_def gb_def algebra_simps)
  have "D \<noteq> 0"
    using ab by (auto simp: D_def)
  then consider "0 < D" | "D < 0" by linarith
  then show ?thesis
  proof cases
    case 1
    have f: "0 \<le> fc" "0 \<le> - fd"
      using ab 1 by (auto simp: D_def sign3_def split: if_splits)
    have h: "0 \<le> gb" "0 \<le> - ga"
      using cd 1 g by (auto simp: sign3_def split: if_splits)
    have sums: "fc + - fd = D" "gb + - ga = D"
      using g by (simp_all add: D_def)
    have "D * min cx dx \<le> D * max ax bx" "D * min ax bx \<le> D * max cx dx"
      "D * min cy dy \<le> D * max ay by'" "D * min ay by' \<le> D * max cy dy"
      using convex_between [OF f, of dx cx] convex_between [OF h, of ax bx]
        convex_between [OF f, of dy cy] convex_between [OF h, of ay by'] ix iy
      unfolding sums by (simp_all add: min.commute max.commute)
    with 1 show ?thesis
      by (simp add: mult_le_cancel_left_pos)
  next
    case 2
    have f: "0 \<le> fd" "0 \<le> - fc"
      using ab 2 by (auto simp: D_def sign3_def split: if_splits)
    have h: "0 \<le> ga" "0 \<le> - gb"
      using cd 2 g by (auto simp: sign3_def split: if_splits)
    have sums: "fd + - fc = - D" "ga + - gb = - D"
      using g by (simp_all add: D_def)
    have "- D * min cx dx \<le> - D * max ax bx" "- D * min ax bx \<le> - D * max cx dx"
      "- D * min cy dy \<le> - D * max ay by'" "- D * min ay by' \<le> - D * max cy dy"
      using convex_between [OF f, of cx dx] convex_between [OF h, of bx ax]
        convex_between [OF f, of cy dy] convex_between [OF h, of by' ay] ix iy
      unfolding sums by (simp_all add: min.commute max.commute)
    moreover have "0 < - D"
      using 2 by simp
    ultimately show ?thesis
      by (simp only: mult_le_cancel_left_pos)
  qed
qed

lemma between_x_to_y:
  fixes ax ay bx by' cx cy :: int
  assumes t: "(by' - ay) * (cx - bx) - (cy - by') * (bx - ax) = 0"
    and v: "ay \<noteq> by'" and lo: "min ax bx < cx" and hi: "cx < max ax bx"
  shows "min ay by' < cy \<and> cy < max ay by'"
proof -
  have e1: "(by' - ay) * (cx - bx) = (cy - by') * (bx - ax)"
    using t by simp
  have e2: "(by' - ay) * (cx - ax) = (cy - ay) * (bx - ax)"
    using t by (simp add: algebra_simps)
  have s1: "sgn (by' - ay) * sgn (cx - bx) = sgn (cy - by') * sgn (bx - ax)"
    using arg_cong [OF e1, of sgn] by (simp add: sgn_mult)
  have s2: "sgn (by' - ay) * sgn (cx - ax) = sgn (cy - ay) * sgn (bx - ax)"
    using arg_cong [OF e2, of sgn] by (simp add: sgn_mult)
  consider "ax < cx" "cx < bx" | "bx < cx" "cx < ax"
    using lo hi by (auto simp: min_def max_def split: if_splits)
  then show ?thesis
  proof cases
    case 1
    then show ?thesis
      using s1 s2 v by (auto simp: sgn_if min_def max_def split: if_splits)
  next
    case 2
    then show ?thesis
      using s1 s2 v by (auto simp: sgn_if min_def max_def split: if_splits)
  qed
qed

lemma collinear_same_x:
  fixes ax ay bx by' cx cy :: int
  assumes t: "(by' - ay) * (cx - bx) - (cy - by') * (bx - ax) = 0" and u: "ax \<noteq> bx"
  shows "cx = ax \<longrightarrow> cy = ay" and "cx = bx \<longrightarrow> cy = by'"
proof -
  have e2: "(by' - ay) * (cx - ax) = (cy - ay) * (bx - ax)"
    using t by (simp add: algebra_simps)
  show "cx = ax \<longrightarrow> cy = ay"
    using e2 u by auto
  show "cx = bx \<longrightarrow> cy = by'"
    using t u by auto
qed

lemma overlap_inside_x:
  fixes ax ay bx by' cx cy dx dy :: int
  assumes abc: "(by' - ay) * (cx - bx) - (cy - by') * (bx - ax) = 0"
    and abd: "(by' - ay) * (dx - bx) - (dy - by') * (bx - ax) = 0"
    and cda: "(dy - cy) * (ax - dx) - (ay - dy) * (dx - cx) = 0"
    and cdb: "(dy - cy) * (bx - dx) - (by' - dy) * (dx - cx) = 0"
    and sl: "ax \<noteq> bx" "ay \<noteq> by'" "cx \<noteq> dx" "cy \<noteq> dy"
    and ov: "max (min ax bx) (min cx dx) < min (max ax bx) (max cx dx)"
    and ns: "\<not> ((ax = cx \<and> ay = cy \<and> bx = dx \<and> by' = dy) \<or> (ax = dx \<and> ay = dy \<and> bx = cx \<and> by' = cy))"
  shows "(min ax bx < cx \<and> cx < max ax bx \<and> min ay by' < cy \<and> cy < max ay by') \<or>
         (min ax bx < dx \<and> dx < max ax bx \<and> min ay by' < dy \<and> dy < max ay by') \<or>
         (min cx dx < ax \<and> ax < max cx dx \<and> min cy dy < ay \<and> ay < max cy dy) \<or>
         (min cx dx < bx \<and> bx < max cx dx \<and> min cy dy < by' \<and> by' < max cy dy)"
proof -
  have ends: "\<not> ((ax = cx \<and> bx = dx) \<or> (ax = dx \<and> bx = cx))"
    using ns collinear_same_x [OF abc sl(1)] collinear_same_x [OF abd sl(1)] by auto
  with ov sl(1,3) have "(min ax bx < cx \<and> cx < max ax bx) \<or> (min ax bx < dx \<and> dx < max ax bx) \<or>
      (min cx dx < ax \<and> ax < max cx dx) \<or> (min cx dx < bx \<and> bx < max cx dx)"
    by (auto simp: min_def max_def split: if_splits)
  then show ?thesis
    using between_x_to_y [OF abc sl(2)] between_x_to_y [OF abd sl(2)]
      between_x_to_y [OF cda sl(4)] between_x_to_y [OF cdb sl(4)]
    by blast
qed

lemma overlap_inside:
  assumes "collinear4 a b c d" and "slanted a b" and "slanted c d" and "overlap a b c d"
    and "\<not> same_segment a b c d"
  shows "strictly_between a b c \<or> strictly_between a b d \<or>
         strictly_between c d a \<or> strictly_between c d b"
proof -
  obtain ax ay bx by' cx cy dx dy
    where p: "a = (ax, ay)" "b = (bx, by')" "c = (cx, cy)" "d = (dx, dy)"
    by (cases a, cases b, cases c, cases d)
  from assms(1) have abc: "(by' - ay) * (cx - bx) - (cy - by') * (bx - ax) = 0"
    and abd: "(by' - ay) * (dx - bx) - (dy - by') * (bx - ax) = 0"
    and cda: "(dy - cy) * (ax - dx) - (ay - dy) * (dx - cx) = 0"
    and cdb: "(dy - cy) * (bx - dx) - (by' - dy) * (dx - cx) = 0"
    by (simp_all add: collinear4_def turn_def p)
  from assms(2,3) have sl: "ax \<noteq> bx" "ay \<noteq> by'" "cx \<noteq> dx" "cy \<noteq> dy"
    by (simp_all add: slanted_def p)
  from assms(5) have ns: "\<not> ((ax = cx \<and> ay = cy \<and> bx = dx \<and> by' = dy) \<or>
      (ax = dx \<and> ay = dy \<and> bx = cx \<and> by' = cy))"
    by (simp add: same_segment_def p)
  from assms(4) consider
    "max (min ax bx) (min cx dx) < min (max ax bx) (max cx dx)"
    | "max (min ay by') (min cy dy) < min (max ay by') (max cy dy)"
    by (auto simp: overlap_def p)
  then show ?thesis
  proof cases
    case 1
    from overlap_inside_x [OF abc abd cda cdb sl 1 ns] show ?thesis
      by (simp add: strictly_between_def p)
  next
    case 2
    have abc': "(bx - ax) * (cy - by') - (cx - bx) * (by' - ay) = 0"
      and abd': "(bx - ax) * (dy - by') - (dx - bx) * (by' - ay) = 0"
      and cda': "(dx - cx) * (ay - dy) - (ax - dx) * (dy - cy) = 0"
      and cdb': "(dx - cx) * (by' - dy) - (bx - dx) * (dy - cy) = 0"
      using abc abd cda cdb by (simp_all add: algebra_simps)
    have ns': "\<not> ((ay = cy \<and> ax = cx \<and> by' = dy \<and> bx = dx) \<or>
        (ay = dy \<and> ax = dx \<and> by' = cy \<and> bx = cx))"
      using ns by blast
    from overlap_inside_x [OF abc' abd' cda' cdb' sl(2) sl(1) sl(4) sl(3) 2 ns'] show ?thesis
      by (auto simp: strictly_between_def p)
  qed
qed

lemma pointOrientation_ipt:
  assumes "small p" and "small q" and "small r"
  shows "pointOrientation (ipt p) (ipt q) (ipt r) = sign3 (turn p q r)"
  using assms pointOrientation_exact [of "fst p" "snd p" "fst q" "snd q" "fst r" "snd r"]
  by (simp add: small_def ipt_def turn_def sign3_def Let_def)

lemma onSegment_ipt: "onSegment (ipt a) (ipt b) (ipt c) = strictly_between a b c"
  by (auto simp: onSegment_def ipt_def pt_def fmin_def fmax_def fgt_def strictly_between_def
      min_def max_def)

lemma sign3_0: "sign3 v = 0 \<longleftrightarrow> v = 0"
  by (simp add: sign3_def)

text \<open>On small integer points the source's test is the exact one.\<close>

lemma lineSegmentsIntersect_ipt:
  assumes "small a" and "small b" and "small c" and "small d"
  shows "lineSegmentsIntersect (ipt a) (ipt b) (ipt c) (ipt d) =
         ((sign3 (turn a b c) \<noteq> sign3 (turn a b d) \<and> sign3 (turn c d a) \<noteq> sign3 (turn c d b)) \<or>
          (turn a b c = 0 \<and> strictly_between a b c) \<or> (turn a b d = 0 \<and> strictly_between a b d) \<or>
          (turn c d a = 0 \<and> strictly_between c d a) \<or> (turn c d b = 0 \<and> strictly_between c d b))"
  unfolding lineSegmentsIntersect_def Let_def onSegment_ipt
    pointOrientation_ipt [OF assms(1,2,3)] pointOrientation_ipt [OF assms(1,2,4)]
    pointOrientation_ipt [OF assms(3,4,1)] pointOrientation_ipt [OF assms(3,4,2)] sign3_0
  by auto

lemma boxes_apart_no_crossing:
  assumes "boxes_apart a b c d"
  shows "\<not> (sign3 (turn a b c) \<noteq> sign3 (turn a b d) \<and> sign3 (turn c d a) \<noteq> sign3 (turn c d b))"
proof
  assume x: "sign3 (turn a b c) \<noteq> sign3 (turn a b d) \<and> sign3 (turn c d a) \<noteq> sign3 (turn c d b)"
  have "min (fst c) (fst d) \<le> max (fst a) (fst b) \<and> min (fst a) (fst b) \<le> max (fst c) (fst d) \<and>
        min (snd c) (snd d) \<le> max (snd a) (snd b) \<and> min (snd a) (snd b) \<le> max (snd c) (snd d)"
    using x by (intro crossing_ranges_overlap) (simp_all add: turn_def)
  with assms show False
    unfolding boxes_apart_def by linarith
qed

lemma boxes_apart_not_between:
  assumes "boxes_apart a b c d"
  shows "\<not> strictly_between a b c" "\<not> strictly_between a b d"
    "\<not> strictly_between c d a" "\<not> strictly_between c d b"
  using assms by (auto simp: boxes_apart_def strictly_between_def)

section \<open>Claims on orientation and intersection\<close>

text \<open>
  C4, as stated: the orientation is the sign class of the cross product of
  \<open>p2 - p1\<close> and \<open>p3 - p2\<close>, positive giving Clockwise. At \<open>(0,0), (1,0), (1,1)\<close>
  that cross product is \<open>1\<close>, which is positive, and the source returns
  CounterClockwise.
\<close>

theorem pointOrientation_cross_counterexample:
  "cross (vec (pt 0 0) (pt 1 0)) (vec (pt 1 0) (pt 1 1)) = Fin 1 \<and>
   sign_class (cross (vec (pt 0 0) (pt 1 0)) (vec (pt 1 0) (pt 1 1))) = Clockwise \<and>
   pointOrientation (pt 0 0) (pt 1 0) (pt 1 1) = CounterClockwise \<and>
   pointOrientation (pt 0 0) (pt 1 0) (pt 1 1) \<noteq>
     sign_class (cross (vec (pt 0 0) (pt 1 0)) (vec (pt 1 0) (pt 1 1)))"
  by (simp add: pointOrientation_def sign_class_def cross_def vec_def pt_def round64_small
      feq_def fgt_def Collinear_def Clockwise_def CounterClockwise_def)

text \<open>
  C4, amended. The source classifies the sign of the cross product with the
  operands the other way round, that of \<open>p3 - p2\<close> and \<open>p2 - p1\<close>, which is the
  negation of the one the claim names: zero gives Collinear, positive Clockwise,
  and anything else CounterClockwise. This is in float64 arithmetic; on integer
  coordinates of magnitude up to \<open>2 ^ 25\<close> it is the sign class of the exact
  negated cross product. The three examples of the claim hold.
\<close>

theorem pointOrientation_negated_cross:
  "pointOrientation p1 p2 p3 = sign_class (cross (vec p2 p3) (vec p1 p2)) \<and>
   pointOrientation p1 p2 p3 = sign_class (fneg (cross (vec p1 p2) (vec p2 p3))) \<and>
   (small a \<and> small b \<and> small c \<longrightarrow>
      pointOrientation (ipt a) (ipt b) (ipt c) = sign3 (- icross (ivec a b) (ivec b c))) \<and>
   pointOrientation (pt 0 0) (pt 1 1) (pt 2 2) = Collinear \<and>
   pointOrientation (pt 0 0) (pt 1 0) (pt 1 1) = CounterClockwise \<and>
   pointOrientation (pt 0 0) (pt 0 1) (pt 1 1) = Clockwise"
proof -
  have general: "pointOrientation p1 p2 p3 = sign_class (cross (vec p2 p3) (vec p1 p2))"
    by (rule pointOrientation_cross)
  have negated: "pointOrientation p1 p2 p3 = sign_class (fneg (cross (vec p1 p2) (vec p2 p3)))"
    using general cross_swap [of "vec p2 p3" "vec p1 p2"] by simp
  have "turn a b c = - icross (ivec a b) (ivec b c)"
    by (simp add: turn_def icross_def ivec_def algebra_simps)
  then have exact: "pointOrientation (ipt a) (ipt b) (ipt c) = sign3 (- icross (ivec a b) (ivec b c))"
    if "small a" "small b" "small c"
    using pointOrientation_ipt [OF that] by simp
  have "pointOrientation (pt 0 0) (pt 1 1) (pt 2 2) = Collinear"
    "pointOrientation (pt 0 0) (pt 1 0) (pt 1 1) = CounterClockwise"
    "pointOrientation (pt 0 0) (pt 0 1) (pt 1 1) = Clockwise"
    by (simp_all add: pointOrientation_def pt_def round64_small feq_def fgt_def
        Collinear_def Clockwise_def CounterClockwise_def)
  with general negated exact show ?thesis by simp
qed

theorem pointOrientation_negated_cross_witness:
  "small (0, 0) \<and> small (1, 0) \<and> small (1, 1) \<and>
   icross (ivec (0, 0) (1, 0)) (ivec (1, 0) (1, 1)) = 1 \<and>
   pointOrientation (ipt (0, 0)) (ipt (1, 0)) (ipt (1, 1)) = CounterClockwise"
proof -
  have s: "small (0, 0) \<and> small (1, 0) \<and> small (1, 1)"
    by (simp add: small_def)
  have c: "icross (ivec (0, 0) (1, 0)) (ivec (1, 0) (1, 1)) = 1"
    by (simp add: icross_def ivec_def)
  from pointOrientation_negated_cross [of "pt 0 0" "pt 0 0" "pt 0 0" "(0, 0)" "(1, 0)" "(1, 1)"]
  have "small (0, 0) \<and> small (1, 0) \<and> small (1, 1) \<longrightarrow>
      pointOrientation (ipt (0, 0)) (ipt (1, 0)) (ipt (1, 1)) =
      sign3 (- icross (ivec (0, 0) (1, 0)) (ivec (1, 0) (1, 1)))"
    by blast
  with s c show ?thesis
    by (simp add: sign3_def CounterClockwise_def)
qed

text \<open>
  The comparisons of \<open>onSegment\<close> are strict on both axes, so the on-segment
  branch reports nothing for collinear segments that are horizontal or vertical,
  nor for a segment and itself.
\<close>

lemma lineSegmentsIntersect_horizontal_overlap:
  "\<not> lineSegmentsIntersect (ipt (0, 0)) (ipt (2, 0)) (ipt (1, 0)) (ipt (3, 0))"
  by (simp add: ipt_def lineSegmentsIntersect_def onSegment_def fmin_def fmax_def
      pointOrientation_def pt_def round64_small feq_def fgt_def)

lemma lineSegmentsIntersect_same_segment:
  "\<not> lineSegmentsIntersect (ipt (0, 0)) (ipt (2, 2)) (ipt (0, 0)) (ipt (2, 2))"
  by (simp add: ipt_def lineSegmentsIntersect_def onSegment_def fmin_def fmax_def
      pointOrientation_def pt_def round64_small feq_def fgt_def)

text \<open>
  C5, as stated: segments with bounding boxes apart never report an intersection.
  The segments from \<open>(0,1)\<close> to \<open>(1, 2 ^ 54)\<close> and from \<open>(0,0)\<close> to
  \<open>(0, - 2 ^ 53)\<close> have bounding boxes apart, one above and one below the \<open>X\<close>
  axis. The difference \<open>2 ^ 54 - 1\<close> is rounded to \<open>2 ^ 54\<close>, the orientation of
  \<open>(0,0)\<close> against the first segment comes out collinear where it is not, and
  the function reports an intersection.
\<close>

theorem lineSegmentsIntersect_counterexample:
  "boxes_apart (0, 1) (1, 2 ^ 54) (0, 0) (0, - (2 ^ 53)) \<and>
   turn (0, 1) (1, 2 ^ 54) (0, 0) = 1 \<and>
   pointOrientation (ipt (0, 1)) (ipt (1, 2 ^ 54)) (ipt (0, 0)) = Collinear \<and>
   lineSegmentsIntersect (ipt (0, 1)) (ipt (1, 2 ^ 54)) (ipt (0, 0)) (ipt (0, - (2 ^ 53)))"
proof -
  have rounding: "lineSegmentsIntersect (ipt (0, 1)) (ipt (1, 2 ^ 54)) (ipt (0, 0)) (ipt (0, - (2 ^ 53)))"
    by (simp add: ipt_def lineSegmentsIntersect_def pointOrientation_def pt_def round64_small
        round64_beyond_53_bits feq_def fgt_def)
  have collinear: "pointOrientation (ipt (0, 1)) (ipt (1, 2 ^ 54)) (ipt (0, 0)) = Collinear"
    by (simp add: ipt_def pointOrientation_def pt_def round64_small
        round64_beyond_53_bits feq_def fgt_def Collinear_def)
  have "boxes_apart (0, 1) (1, 2 ^ 54) (0, 0) (0, - (2 ^ 53))"
    by (simp add: boxes_apart_def)
  moreover have "turn (0, 1) (1, 2 ^ 54) (0, 0) = 1"
    by (simp add: turn_def)
  ultimately show ?thesis
    using rounding collinear by simp
qed

text \<open>
  C5, amended. On segments whose ends have integer coordinates of magnitude up to
  \<open>2 ^ 25\<close>, where the float64 arithmetic of the orientation is exact:
  \<^item> bounding boxes apart give false;
  \<^item> collinear segments that share more than one point, are neither horizontal
    nor vertical and are not the same segment give true, by the on-segment
    branch: all four orientations are collinear and \<open>onSegment\<close> holds of an end.
  The two crossing diagonals of the unit square give true. Nothing is said of
  collinear segments that are horizontal or vertical or the same segment.
\<close>

theorem lineSegmentsIntersect_exact:
  assumes "small a" and "small b" and "small c" and "small d"
  shows "(boxes_apart a b c d \<longrightarrow> \<not> lineSegmentsIntersect (ipt a) (ipt b) (ipt c) (ipt d)) \<and>
         (collinear4 a b c d \<and> overlap a b c d \<and> slanted a b \<and> slanted c d \<and>
          \<not> same_segment a b c d \<longrightarrow>
            lineSegmentsIntersect (ipt a) (ipt b) (ipt c) (ipt d) \<and>
            pointOrientation (ipt a) (ipt b) (ipt c) = Collinear \<and>
            pointOrientation (ipt a) (ipt b) (ipt d) = Collinear \<and>
            pointOrientation (ipt c) (ipt d) (ipt a) = Collinear \<and>
            pointOrientation (ipt c) (ipt d) (ipt b) = Collinear \<and>
            (onSegment (ipt a) (ipt b) (ipt c) \<or> onSegment (ipt a) (ipt b) (ipt d) \<or>
             onSegment (ipt c) (ipt d) (ipt a) \<or> onSegment (ipt c) (ipt d) (ipt b))) \<and>
         lineSegmentsIntersect (pt 0 0) (pt 1 1) (pt 0 1) (pt 1 0)"
proof -
  note exact = lineSegmentsIntersect_ipt [OF assms]
  have apart: "\<not> lineSegmentsIntersect (ipt a) (ipt b) (ipt c) (ipt d)" if "boxes_apart a b c d"
    using boxes_apart_no_crossing [OF that] boxes_apart_not_between [OF that]
    unfolding exact by blast
  have shared: "lineSegmentsIntersect (ipt a) (ipt b) (ipt c) (ipt d) \<and>
      pointOrientation (ipt a) (ipt b) (ipt c) = Collinear \<and>
      pointOrientation (ipt a) (ipt b) (ipt d) = Collinear \<and>
      pointOrientation (ipt c) (ipt d) (ipt a) = Collinear \<and>
      pointOrientation (ipt c) (ipt d) (ipt b) = Collinear \<and>
      (onSegment (ipt a) (ipt b) (ipt c) \<or> onSegment (ipt a) (ipt b) (ipt d) \<or>
       onSegment (ipt c) (ipt d) (ipt a) \<or> onSegment (ipt c) (ipt d) (ipt b))"
    if "collinear4 a b c d" "overlap a b c d" "slanted a b" "slanted c d" "\<not> same_segment a b c d"
  proof -
    have inside: "strictly_between a b c \<or> strictly_between a b d \<or>
        strictly_between c d a \<or> strictly_between c d b"
      by (rule overlap_inside [OF that(1,3,4,2,5)])
    have turns: "turn a b c = 0" "turn a b d = 0" "turn c d a = 0" "turn c d b = 0"
      using that(1) by (simp_all add: collinear4_def)
    have "lineSegmentsIntersect (ipt a) (ipt b) (ipt c) (ipt d)"
      unfolding exact using inside turns by blast
    moreover have "pointOrientation (ipt a) (ipt b) (ipt c) = Collinear"
      "pointOrientation (ipt a) (ipt b) (ipt d) = Collinear"
      "pointOrientation (ipt c) (ipt d) (ipt a) = Collinear"
      "pointOrientation (ipt c) (ipt d) (ipt b) = Collinear"
      using turns
      by (simp_all add: pointOrientation_ipt [OF assms(1,2,3)] pointOrientation_ipt [OF assms(1,2,4)]
          pointOrientation_ipt [OF assms(3,4,1)] pointOrientation_ipt [OF assms(3,4,2)]
          sign3_def Collinear_def)
    ultimately show ?thesis
      using inside by (simp add: onSegment_ipt)
  qed
  from apart shared lineSegmentsIntersect_diagonals show ?thesis
    by blast
qed

theorem lineSegmentsIntersect_exact_witness:
  "small (0, 0) \<and> small (1, 1) \<and> small (2, 0) \<and> small (3, 1) \<and> small (2, 2) \<and> small (3, 3) \<and>
   boxes_apart (0, 0) (1, 1) (2, 0) (3, 1) \<and>
   \<not> lineSegmentsIntersect (ipt (0, 0)) (ipt (1, 1)) (ipt (2, 0)) (ipt (3, 1)) \<and>
   collinear4 (0, 0) (2, 2) (1, 1) (3, 3) \<and> overlap (0, 0) (2, 2) (1, 1) (3, 3) \<and>
   slanted (0, 0) (2, 2) \<and> slanted (1, 1) (3, 3) \<and> \<not> same_segment (0, 0) (2, 2) (1, 1) (3, 3) \<and>
   pointOrientation (ipt (0, 0)) (ipt (2, 2)) (ipt (1, 1)) = Collinear \<and>
   lineSegmentsIntersect (ipt (0, 0)) (ipt (2, 2)) (ipt (1, 1)) (ipt (3, 3))"
proof -
  have s: "small (0, 0)" "small (1, 1)" "small (2, 0)" "small (3, 1)" "small (2, 2)" "small (3, 3)"
    by (simp_all add: small_def)
  have apart: "boxes_apart (0, 0) (1, 1) (2, 0) (3, 1)"
    by (simp add: boxes_apart_def)
  have line: "collinear4 (0, 0) (2, 2) (1, 1) (3, 3)" "overlap (0, 0) (2, 2) (1, 1) (3, 3)"
    "slanted (0, 0) (2, 2)" "slanted (1, 1) (3, 3)" "\<not> same_segment (0, 0) (2, 2) (1, 1) (3, 3)"
    by (simp_all add: collinear4_def turn_def overlap_def slanted_def same_segment_def)
  from s apart line
    lineSegmentsIntersect_exact [OF s(1) s(2) s(3) s(4)]
    lineSegmentsIntersect_exact [OF s(1) s(5) s(2) s(6)]
  show ?thesis by simp
qed

section \<open>The Point type descriptor\<close>

text \<open>
  C3. On a Point, \<open>Convert\<close> succeeds and hands the Point back; \<open>SQL\<close> then asserts
  that it is a string, which it is not, and panics. No wire value is returned for
  any Point.
\<close>

theorem SQL_Point_panics:
  "Convert (PointV p) = (PointV p, None) \<and> SQL (PointV p) = Panics InterfaceConversion"
  by (simp add: SQL_def Convert_def)

lemma SQL_Nil: "SQL Nil = Returns (sqltypes_NULL, None)"
  by (simp add: SQL_def)

lemma SQL_other:
  assumes "v \<noteq> Nil" and "\<forall>p. v \<noteq> PointV p"
  shows "SQL v = Returns (sqltypes_Value_zero, None)"
  using assms by (cases v) (simp_all add: SQL_def Convert_def)

lemma Compare_finite:
  "Compare nullOrder (PointV \<lparr>X = Fin a, Y = Fin b\<rparr>) (PointV \<lparr>X = Fin c, Y = Fin d\<rparr>) =
     (if c < a then 1 else if a < c then - 1 else if d < b then 1 else if b < d then - 1 else 0, None)"
  by (simp add: Compare_def compareNulls_def fgt_def)

lemma finite_pointE:
  assumes "finite_point p"
  obtains a b where "p = \<lparr>X = Fin a, Y = Fin b\<rparr>"
proof -
  from assms obtain a b where "X p = Fin a" "Y p = Fin b"
    by (cases "X p"; cases "Y p") (simp_all add: finite_point_def)
  then have "p = \<lparr>X = Fin a, Y = Fin b\<rparr>"
    by (cases p) simp
  then show ?thesis by (rule that)
qed

text \<open>
  C6. On points with finite coordinates \<open>Compare\<close> returns no error and the sign of
  the lexicographic order by \<open>X\<close>, then \<open>Y\<close>. It gives 0 on equal arguments, and
  only there; swapping the arguments negates it; and it is transitive.
\<close>

theorem Compare_lexicographic:
  assumes "finite_point p" and "finite_point q" and "finite_point r"
  shows "Compare nullOrder (PointV p) (PointV q) = (lex_sign p q, None) \<and>
         Compare nullOrder (PointV p) (PointV p) = (0, None) \<and>
         fst (Compare nullOrder (PointV p) (PointV q)) = - fst (Compare nullOrder (PointV q) (PointV p)) \<and>
         (fst (Compare nullOrder (PointV p) (PointV q)) = 0 \<longleftrightarrow> p = q) \<and>
         (fst (Compare nullOrder (PointV p) (PointV q)) \<le> 0 \<and>
          fst (Compare nullOrder (PointV q) (PointV r)) \<le> 0 \<longrightarrow>
            fst (Compare nullOrder (PointV p) (PointV r)) \<le> 0) \<and>
         (fst (Compare nullOrder (PointV p) (PointV q)) < 0 \<and>
          fst (Compare nullOrder (PointV q) (PointV r)) < 0 \<longrightarrow>
            fst (Compare nullOrder (PointV p) (PointV r)) < 0)"
proof -
  from assms(1) obtain a b where p: "p = \<lparr>X = Fin a, Y = Fin b\<rparr>" by (rule finite_pointE)
  from assms(2) obtain c d where q: "q = \<lparr>X = Fin c, Y = Fin d\<rparr>" by (rule finite_pointE)
  from assms(3) obtain e f where r: "r = \<lparr>X = Fin e, Y = Fin f\<rparr>" by (rule finite_pointE)
  have lex: "Compare nullOrder (PointV p) (PointV q) = (lex_sign p q, None)"
    unfolding p q Compare_finite by (simp add: lex_sign_def)
  have refl: "Compare nullOrder (PointV p) (PointV p) = (0, None)"
    unfolding p Compare_finite by simp
  have anti: "fst (Compare nullOrder (PointV p) (PointV q)) = - fst (Compare nullOrder (PointV q) (PointV p))"
    unfolding p q Compare_finite by simp
  have zero: "fst (Compare nullOrder (PointV p) (PointV q)) = 0 \<longleftrightarrow> p = q"
    unfolding p q Compare_finite by auto
  have trans_le: "fst (Compare nullOrder (PointV p) (PointV r)) \<le> 0"
    if "fst (Compare nullOrder (PointV p) (PointV q)) \<le> 0"
      and "fst (Compare nullOrder (PointV q) (PointV r)) \<le> 0"
    using that unfolding p q r Compare_finite by (simp split: if_splits)
  have trans_less: "fst (Compare nullOrder (PointV p) (PointV r)) < 0"
    if "fst (Compare nullOrder (PointV p) (PointV q)) < 0"
      and "fst (Compare nullOrder (PointV q) (PointV r)) < 0"
    using that unfolding p q r Compare_finite by (simp split: if_splits)
  from lex refl anti zero trans_le trans_less show ?thesis
    by blast
qed

theorem Compare_lexicographic_witness:
  "finite_point (pt 0 5) \<and> finite_point (pt 1 0) \<and> finite_point (pt 1 2) \<and>
   Compare (\<lambda>a b. 0) (PointV (pt 0 5)) (PointV (pt 1 0)) = (- 1, None) \<and>
   Compare (\<lambda>a b. 0) (PointV (pt 1 0)) (PointV (pt 1 2)) = (- 1, None) \<and>
   Compare (\<lambda>a b. 0) (PointV (pt 1 0)) (PointV (pt 0 5)) = (1, None) \<and>
   fst (Compare (\<lambda>a b. 0) (PointV (pt 0 5)) (PointV (pt 1 0))) < 0 \<and>
   fst (Compare (\<lambda>a b. 0) (PointV (pt 1 0)) (PointV (pt 1 2))) < 0 \<and>
   fst (Compare (\<lambda>a b. 0) (PointV (pt 0 5)) (PointV (pt 1 2))) < 0 \<and>
   fst (Compare (\<lambda>a b. 0) (PointV (pt 0 5)) (PointV (pt 1 2))) \<le> 0"
proof -
  have fin: "finite_point (pt 0 5)" "finite_point (pt 1 0)" "finite_point (pt 1 2)"
    by (simp_all add: finite_point_def pt_def)
  have signs: "lex_sign (pt 0 5) (pt 1 0) = - 1" "lex_sign (pt 1 0) (pt 1 2) = - 1"
    "lex_sign (pt 1 0) (pt 0 5) = 1"
    by (simp_all add: lex_sign_def pt_def)
  from fin signs
    Compare_lexicographic [OF fin(1) fin(2) fin(3), of "\<lambda>a b. 0"]
    Compare_lexicographic [OF fin(2) fin(3) fin(1), of "\<lambda>a b. 0"]
    Compare_lexicographic [OF fin(2) fin(1) fin(3), of "\<lambda>a b. 0"]
  show ?thesis by simp
qed

text \<open>
  C9. Every strict comparison with NaN is false, so \<open>Compare\<close> of the point
  \<open>(NaN, NaN)\<close> with any point falls through to 0 without error, on either side.
  The equality that \<open>Compare\<close> induces is then not transitive and does not
  agree with the order: \<open>(0,0)\<close> and \<open>(1,1)\<close> both compare equal to \<open>(NaN, NaN)\<close>,
  which is neither of them, and \<open>(0,0)\<close> compares below \<open>(1,1)\<close>.
\<close>

theorem Compare_NaN_point:
  "Compare nullOrder (PointV NaN_point) (PointV q) = (0, None) \<and>
   Compare nullOrder (PointV q) (PointV NaN_point) = (0, None) \<and>
   Compare nullOrder (PointV (pt 0 0)) (PointV NaN_point) = (0, None) \<and>
   Compare nullOrder (PointV NaN_point) (PointV (pt 1 1)) = (0, None) \<and>
   Compare nullOrder (PointV (pt 0 0)) (PointV (pt 1 1)) = (- 1, None) \<and>
   NaN_point \<noteq> pt 0 0 \<and> NaN_point \<noteq> pt 1 1"
proof -
  have left: "Compare nullOrder (PointV NaN_point) (PointV q) = (0, None)" for q
    by (simp add: Compare_def compareNulls_def NaN_point_def fgt_def flt_NaN_right)
  have right: "Compare nullOrder (PointV q) (PointV NaN_point) = (0, None)" for q
    by (simp add: Compare_def compareNulls_def NaN_point_def fgt_def flt_NaN_right)
  have below: "Compare nullOrder (PointV (pt 0 0)) (PointV (pt 1 1)) = (- 1, None)"
    by (simp add: pt_def Compare_finite)
  have "NaN_point \<noteq> pt 0 0" "NaN_point \<noteq> pt 1 1"
    by (simp_all add: NaN_point_def pt_def)
  with left right below show ?thesis by simp
qed

end
